theory Spec2Isabelle
  imports Main "HOL-Library.Word"
begin

section \<open>JavaScript values, exceptions and collaborator calls\<close>

text \<open>
  The route handlers of the Bun backend are asynchronous functions that may throw,
  catch, and call collaborators (the attestation helper \<^verbatim>\<open>checkAttested\<close>, the
  Supabase client, \<^verbatim>\<open>console.error\<close>). A computation is modelled by its outcome
  (a returned value, or the value it throws) together with the list of collaborator
  calls it performed, in order.
\<close>

datatype json =
    JNull
  | JBool bool
  | JNum int
  | JStr string
  | JArr "json list"
  | JObj "(string \<times> json) list"

text \<open>
  A JavaScript value as far as \<^verbatim>\<open>||\<close> and \<^verbatim>\<open>JSON.stringify\<close> tell values apart:
  \<^item> \<open>Undefined\<close>: \<^verbatim>\<open>undefined\<close>, which is falsy and which \<^verbatim>\<open>JSON.stringify\<close>
    leaves out of an object;
  \<^item> \<open>Dropped\<close>: a function or a symbol, which is truthy and is left out as well;
  \<^item> \<open>Value j\<close>: a value that serialises to the JSON value \<open>j\<close>;
  \<^item> \<open>Unserialisable b msg\<close>: a value on which \<^verbatim>\<open>JSON.stringify\<close> throws a
    TypeError with message \<open>msg\<close> (a BigInt, a circular structure); \<open>b\<close> is its
    truthiness (\<^verbatim>\<open>0n\<close> is falsy).
\<close>

datatype jsvalue = Undefined | Dropped | Value json | Unserialisable bool string

text \<open>
  What a \<^verbatim>\<open>catch (err)\<close> can receive. \<^verbatim>\<open>throw\<close> and a rejected promise carry
  any value: \<open>Thrown_nullish\<close> is \<^verbatim>\<open>null\<close> or \<^verbatim>\<open>undefined\<close>; \<open>Thrown m s\<close> is
  any other value, with \<open>m\<close> the value of \<^verbatim>\<open>err.message\<close> and \<open>s\<close> the string
  \<^verbatim>\<open>String(err)\<close>, or \<open>None\<close> when that conversion itself raises a TypeError (an
  object without \<^verbatim>\<open>toString\<close>). A TypeError raised by the engine has its message
  and the string \<^verbatim>\<open>TypeError: message\<close>; the wording of such a message is the
  engine's, and the strings used below only name the cause.
\<close>

datatype thrown = Thrown_nullish | Thrown jsvalue "string option"

definition TypeError :: "string \<Rightarrow> thrown" where
  "TypeError msg = Thrown (Value (JStr msg)) (Some (''TypeError: '' @ msg))"

datatype 'a outcome = Return 'a | Throw thrown

datatype effect =
    CheckAttested string
  | DocumentsByFileHash string
  | ConsoleError thrown

type_synonym 'a io = "'a outcome \<times> effect list"

definition ret :: "'a \<Rightarrow> 'a io" where
  "ret x = (Return x, [])"

definition bind :: "'a io \<Rightarrow> ('a \<Rightarrow> 'b io) \<Rightarrow> 'b io" where
  "bind m f =
     (case m of
        (Throw e, tr) \<Rightarrow> (Throw e, tr)
      | (Return x, tr) \<Rightarrow> (case f x of (r, tr') \<Rightarrow> (r, tr @ tr')))"

definition try_catch :: "'a io \<Rightarrow> (thrown \<Rightarrow> 'a io) \<Rightarrow> 'a io" where
  "try_catch m h =
     (case m of
        (Return x, tr) \<Rightarrow> (Return x, tr)
      | (Throw e, tr) \<Rightarrow> (case h e of (r, tr') \<Rightarrow> (r, tr @ tr')))"

definition perform :: "effect \<Rightarrow> 'a outcome \<Rightarrow> 'a io" where
  "perform c r = (r, [c])"

text \<open>
  JavaScript truthiness of a value that is either \<^verbatim>\<open>undefined\<close> (\<open>None\<close>) or a
  JSON value: \<^verbatim>\<open>undefined\<close>, \<^verbatim>\<open>null\<close>, \<^verbatim>\<open>false\<close>, \<^verbatim>\<open>0\<close> and the
  empty string are falsy.
\<close>

fun js_truthy :: "json option \<Rightarrow> bool" where
  "js_truthy None = False"
| "js_truthy (Some JNull) = False"
| "js_truthy (Some (JBool b)) = b"
| "js_truthy (Some (JNum n)) = (n \<noteq> 0)"
| "js_truthy (Some (JStr s)) = (s \<noteq> [])"
| "js_truthy (Some (JArr _)) = True"
| "js_truthy (Some (JObj _)) = True"

fun truthy :: "jsvalue \<Rightarrow> bool" where
  "truthy Undefined = False"
| "truthy Dropped = True"
| "truthy (Value j) = js_truthy (Some j)"
| "truthy (Unserialisable b msg) = b"

text \<open>
  \<^verbatim>\<open>hash.startsWith('0x')\<close>: only a string has the method; on any other truthy value
  the call raises a TypeError.
\<close>

definition str_startsWith :: "string \<Rightarrow> string \<Rightarrow> bool" where
  "str_startsWith s p = (take (length p) s = p)"

fun startsWith :: "json option \<Rightarrow> string \<Rightarrow> bool outcome" where
  "startsWith (Some (JStr s)) p = Return (str_startsWith s p)"
| "startsWith _ p = Throw (TypeError ''hash.startsWith is not a function'')"

fun js_slice :: "json option \<Rightarrow> nat \<Rightarrow> string" where
  "js_slice (Some (JStr s)) n = drop n s"
| "js_slice _ n = []"

fun js_string :: "json option \<Rightarrow> string" where
  "js_string (Some (JStr s)) = s"
| "js_string _ = []"

text \<open>
  \<^verbatim>\<open>JSON.stringify\<close> of an object literal, given its properties in order: it throws
  the TypeError of the first property it cannot serialise, and otherwise keeps the
  properties that have a JSON value.
\<close>

fun stringify :: "(string \<times> jsvalue) list \<Rightarrow> (string \<times> json) list outcome" where
  "stringify [] = Return []"
| "stringify ((k, Unserialisable b msg) # kvs) = Throw (TypeError msg)"
| "stringify ((k, Value j) # kvs) =
     (case stringify kvs of Throw e \<Rightarrow> Throw e | Return rest \<Rightarrow> Return ((k, j) # rest))"
| "stringify ((k, v) # kvs) = stringify kvs"

section \<open>The route \<^verbatim>\<open>verifyHash\<close> (src/unnamed/part_000)\<close>

text \<open>
  What the handler reads from the request:
  \<^item> \<open>search_hash\<close>: \<^verbatim>\<open>new URL(req.url).searchParams.get('hash')\<close>, which throws when
    the URL does not parse and is \<^verbatim>\<open>null\<close> (\<open>None\<close>) when the parameter is absent;
  \<^item> \<open>http_method\<close>: \<^verbatim>\<open>req.method\<close>;
  \<^item> \<open>json_hash\<close>: \<^verbatim>\<open>(await req.json()).hash\<close>, which throws when the body is not
    JSON (or is \<^verbatim>\<open>null\<close>) and is \<^verbatim>\<open>undefined\<close> (\<open>None\<close>) when the body has no
    such property; a parsed body holds JSON values only.
\<close>

record request =
  search_hash :: "string option outcome"
  http_method :: string
  json_hash :: "json option outcome"

text \<open>
  The collaborators. \<open>checkAttested\<close> stands for
  \<^verbatim>\<open>checkAttested({rpcUrl, contractAddress, docHash})\<close> as a function of \<open>docHash\<close>
  (the two other arguments are process constants); \<open>documents_by_file_hash\<close> stands
  for the Supabase query
  \<^verbatim>\<open>from('documents').select('*').eq('file_hash', fileHash).maybeSingle()\<close>.
  Their code (\<^verbatim>\<open>utils/blockchain.js\<close>, the Supabase client) is not part of the
  sources, so both are parameters. \<open>checkAttested\<close> may throw any value and may return
  any value: \<open>None\<close> is a result that is \<^verbatim>\<open>null\<close> or \<^verbatim>\<open>undefined\<close>, and
  \<open>Some\<close> gives the three properties the handler reads from any other result. The
  Supabase client resolves to an object \<^verbatim>\<open>{data, error}\<close> of parsed JSON.
\<close>

record onchain =
  attested :: jsvalue
  attestor :: jsvalue
  blockNumber :: jsvalue

record db_result =
  db_data :: json
  db_error :: json

record env =
  checkAttested :: "string \<Rightarrow> onchain option outcome"
  documents_by_file_hash :: "string \<Rightarrow> db_result outcome"

record response =
  status :: nat
  body :: "(string \<times> json) list"

text \<open>
  Line 12: \<^verbatim>\<open>url.searchParams.get('hash') || (req.method === 'POST' ? (await req.json()).hash : null)\<close>.
  The right operand is evaluated only when the left one is falsy.
\<close>

definition request_hash :: "request \<Rightarrow> json option io" where
  "request_hash req =
     bind (search_hash req, []) (\<lambda>q.
       if js_truthy (map_option JStr q) then ret (map_option JStr q)
       else if http_method req = ''POST'' then (json_hash req, [])
       else ret (Some JNull))"

text \<open>Line 15: \<^verbatim>\<open>hash.startsWith('0x') ? hash : '0x' + hash\<close>.\<close>

definition normalized :: "json option \<Rightarrow> string outcome" where
  "normalized hash =
     (case startsWith hash ''0x'' of
        Throw e \<Rightarrow> Throw e
      | Return b \<Rightarrow> Return (if b then js_string hash else ''0x'' @ js_string hash))"

text \<open>Line 25: \<^verbatim>\<open>hash.startsWith('0x') ? hash.slice(2) : hash\<close>.\<close>

definition fileHash :: "json option \<Rightarrow> string outcome" where
  "fileHash hash =
     (case startsWith hash ''0x'' of
        Throw e \<Rightarrow> Throw e
      | Return b \<Rightarrow> Return (if b then js_slice hash 2 else js_string hash))"

text \<open>
  Lines 23 to 30: the lookup of the document row. Its own \<^verbatim>\<open>try\<close> swallows every
  exception; \<^verbatim>\<open>doc\<close> stays \<^verbatim>\<open>null\<close> unless the query returns without an error.
\<close>

definition lookup_document :: "env \<Rightarrow> json option \<Rightarrow> json io" where
  "lookup_document env hash =
     try_catch
       (bind (fileHash hash, []) (\<lambda>fh.
        bind (perform (DocumentsByFileHash fh) (documents_by_file_hash env fh)) (\<lambda>res.
        ret (if js_truthy (Some (db_error res)) then JNull else db_data res))))
       (\<lambda>e. ret JNull)"

text \<open>
  Line 32: the response 200. Reading \<^verbatim>\<open>onChain.attested\<close> raises a TypeError when
  the attestation result is \<^verbatim>\<open>null\<close> or \<^verbatim>\<open>undefined\<close>, and
  \<^verbatim>\<open>JSON.stringify\<close> throws on a property it cannot serialise.
\<close>

definition respond_ok :: "onchain option \<Rightarrow> json \<Rightarrow> response outcome" where
  "respond_ok onChain doc =
     (case onChain of
        None \<Rightarrow> Throw (TypeError ''onChain is null or undefined'')
      | Some oc \<Rightarrow>
          (case stringify
                  [(''ok'', Value (JBool True)),
                   (''attested'', attested oc),
                   (''attestor'', attestor oc),
                   (''blockNumber'', blockNumber oc),
                   (''document'', Value doc)] of
             Throw e \<Rightarrow> Throw e
           | Return b \<Rightarrow> Return \<lparr>status = 200, body = b\<rparr>))"

text \<open>
  Line 35, inside the \<^verbatim>\<open>catch\<close>: \<^verbatim>\<open>err.message || String(err)\<close>. Reading
  \<^verbatim>\<open>err.message\<close> raises a TypeError when \<^verbatim>\<open>err\<close> is \<^verbatim>\<open>null\<close> or
  \<^verbatim>\<open>undefined\<close>; nothing catches it, so it leaves the handler.
\<close>

fun error_message :: "thrown \<Rightarrow> jsvalue outcome" where
  "error_message Thrown_nullish = Throw (TypeError ''err is null or undefined'')"
| "error_message (Thrown m s) =
     (if truthy m then Return m
      else case s of
             Some str \<Rightarrow> Return (Value (JStr str))
           | None \<Rightarrow> Throw (TypeError ''Cannot convert object to primitive value''))"

definition respond_error :: "thrown \<Rightarrow> response outcome" where
  "respond_error err =
     (case error_message err of
        Throw e \<Rightarrow> Throw e
      | Return m \<Rightarrow>
          (case stringify [(''error'', m)] of
             Throw e \<Rightarrow> Throw e
           | Return b \<Rightarrow> Return \<lparr>status = 500, body = b\<rparr>))"

text \<open>Lines 9 to 37.\<close>

definition verifyHash :: "env \<Rightarrow> request \<Rightarrow> response io" where
  "verifyHash env req =
     try_catch
       (bind (request_hash req) (\<lambda>hash.
          if \<not> js_truthy hash
          then ret \<lparr>status = 400, body = [(''error'', JStr ''hash required'')]\<rparr>
          else
            bind (normalized hash, []) (\<lambda>nh.
            bind (perform (CheckAttested nh) (checkAttested env nh)) (\<lambda>onChain.
            bind (lookup_document env hash) (\<lambda>doc.
            (respond_ok onChain doc, []))))))
       (\<lambda>err.
          bind (perform (ConsoleError err) (Return ())) (\<lambda>_.
          (respond_error err, [])))"

text \<open>
  A value that \<^verbatim>\<open>JSON.stringify\<close> accepts as a property value, and the JSON value
  it contributes to the object (none when the property is left out).
\<close>

fun serialisable :: "jsvalue \<Rightarrow> bool" where
  "serialisable (Unserialisable b msg) = False"
| "serialisable v = True"

fun json_of :: "jsvalue \<Rightarrow> json option" where
  "json_of (Value j) = Some j"
| "json_of v = None"

text \<open>
  An exception that the \<^verbatim>\<open>catch\<close> of line 33 can turn into a response: it is not
  \<^verbatim>\<open>null\<close> or \<^verbatim>\<open>undefined\<close>, its message, when truthy, can be serialised,
  and otherwise it converts to a string.
\<close>

fun reportable :: "thrown \<Rightarrow> bool" where
  "reportable Thrown_nullish = False"
| "reportable (Thrown m s) = (if truthy m then serialisable m else s \<noteq> None)"

text \<open>The calls that query a collaborator, as opposed to the log entry.\<close>

fun is_query :: "effect \<Rightarrow> bool" where
  "is_query (ConsoleError e) = False"
| "is_query c = True"

section \<open>Result codes and the result schema of the verify page (src/unnamed/part_002)\<close>

text \<open>
  The union type \<^verbatim>\<open>ErrorCode\<close> (lines 15 to 24), in the order of its declaration, and
  the string each member stands for.
\<close>

datatype ErrorCode =
    SUCCESS
  | QR_NOT_FOUND
  | QR_DECODE_FAIL
  | PAYLOAD_READ_FAIL
  | HASH_MISMATCH
  | SIGNATURE_MISMATCH
  | INSTITUTION_NOT_FOUND
  | DOCUMENT_REVOKED
  | INTERNAL_ERROR

fun code_name :: "ErrorCode \<Rightarrow> string" where
  "code_name SUCCESS = ''SUCCESS''"
| "code_name QR_NOT_FOUND = ''QR_NOT_FOUND''"
| "code_name QR_DECODE_FAIL = ''QR_DECODE_FAIL''"
| "code_name PAYLOAD_READ_FAIL = ''PAYLOAD_READ_FAIL''"
| "code_name HASH_MISMATCH = ''HASH_MISMATCH''"
| "code_name SIGNATURE_MISMATCH = ''SIGNATURE_MISMATCH''"
| "code_name INSTITUTION_NOT_FOUND = ''INSTITUTION_NOT_FOUND''"
| "code_name DOCUMENT_REVOKED = ''DOCUMENT_REVOKED''"
| "code_name INTERNAL_ERROR = ''INTERNAL_ERROR''"

definition error_codes :: "ErrorCode list" where
  "error_codes =
     [SUCCESS, QR_NOT_FOUND, QR_DECODE_FAIL, PAYLOAD_READ_FAIL, HASH_MISMATCH,
      SIGNATURE_MISMATCH, INSTITUTION_NOT_FOUND, DOCUMENT_REVOKED, INTERNAL_ERROR]"

text \<open>
  The interface \<^verbatim>\<open>VerificationResult\<close> (lines 26 to 49) read as a schema for a JSON
  object: \<^verbatim>\<open>valid: boolean\<close> and \<^verbatim>\<open>message: string\<close> are required,
  \<^verbatim>\<open>error_code?: ErrorCode\<close> is optional and, when present, one of the nine names.
\<close>

definition is_VerificationResult :: "(string \<times> json) list \<Rightarrow> bool" where
  "is_VerificationResult b =
     ((case map_of b ''valid'' of Some (JBool _) \<Rightarrow> True | _ \<Rightarrow> False) \<and>
      (case map_of b ''message'' of Some (JStr _) \<Rightarrow> True | _ \<Rightarrow> False) \<and>
      (case map_of b ''error_code'' of
         None \<Rightarrow> True
       | Some (JStr c) \<Rightarrow> c \<in> set (map code_name error_codes)
       | Some _ \<Rightarrow> False))"

section \<open>The audit hash chain (src/scripts/migrate_multitenant.sql)\<close>

text \<open>
  A row of the table \<^verbatim>\<open>audit_logs\<close> (lines 118 to 151) with the columns the chain
  functions and the chain's hash read. \<^verbatim>\<open>institution_id\<close>, \<^verbatim>\<open>document_hash\<close>,
  \<^verbatim>\<open>previous_log_hash\<close>, \<^verbatim>\<open>chain_position\<close> and \<^verbatim>\<open>actor_id\<close> are nullable
  (\<open>None\<close> is SQL's NULL); \<^verbatim>\<open>log_hash\<close> and \<^verbatim>\<open>event_type\<close> are NOT NULL, and
  \<^verbatim>\<open>event_type\<close> is restricted by a CHECK to eight values. The table is the list of
  its rows in storage order.
\<close>

type_synonym uuid = string

datatype audit_event =
    institution_onboarded
  | key_rotated
  | document_issued
  | document_revoked
  | verification_success
  | verification_failed
  | template_created
  | template_updated

record audit_log =
  institution_id :: "uuid option"
  event_type :: audit_event
  document_hash :: "string option"
  log_hash :: string
  previous_log_hash :: "string option"
  chain_position :: "int option"
  actor_id :: "string option"
  created_at :: int

text \<open>
  \<^verbatim>\<open>chain_position\<close> is a BIGINT. PostgreSQL does not wrap on overflow: an addition
  whose result exceeds \<open>2^63 - 1\<close> raises \<^verbatim>\<open>bigint out of range\<close>.
\<close>

datatype sql_error = Bigint_out_of_range

definition bigint_max :: int where
  "bigint_max = 9223372036854775807"

definition bigint_succ :: "int \<Rightarrow> sql_error + int" where
  "bigint_succ a = (if a + 1 > bigint_max then Inl Bigint_out_of_range else Inr (a + 1))"

text \<open>\<^verbatim>\<open>FROM audit_logs WHERE institution_id = inst_id\<close>: a NULL institution never matches.\<close>

definition institution_rows :: "audit_log list \<Rightarrow> uuid \<Rightarrow> audit_log list" where
  "institution_rows tbl inst_id = filter (\<lambda>r. institution_id r = Some inst_id) tbl"

text \<open>
  The aggregate \<^verbatim>\<open>MAX\<close> ignores NULLs and is NULL over no values; \<^verbatim>\<open>COALESCE(v, d)\<close>
  replaces NULL by \<open>d\<close>.
\<close>

fun sql_max :: "int list \<Rightarrow> int option" where
  "sql_max [] = None"
| "sql_max (x # xs) = Some (fold max xs x)"

definition max_chain_position :: "audit_log list \<Rightarrow> uuid \<Rightarrow> int option" where
  "max_chain_position tbl inst_id =
     sql_max (List.map_filter chain_position (institution_rows tbl inst_id))"

fun coalesce :: "int option \<Rightarrow> int \<Rightarrow> int" where
  "coalesce None d = d"
| "coalesce (Some v) d = v"

text \<open>
  Lines 230 to 242:
  \<^verbatim>\<open>SELECT COALESCE(MAX(chain_position), 0) + 1 INTO next_pos FROM audit_logs WHERE institution_id = inst_id\<close>.
\<close>

definition get_next_chain_position :: "audit_log list \<Rightarrow> uuid \<Rightarrow> sql_error + int" where
  "get_next_chain_position tbl inst_id =
     bigint_succ (coalesce (max_chain_position tbl inst_id) 0)"

text \<open>
  \<^verbatim>\<open>ORDER BY chain_position DESC\<close>: PostgreSQL's default for a descending sort is
  NULLS FIRST, so a NULL position sorts before every number. \<open>sorts_before_desc a b\<close>
  says that key \<open>a\<close> comes strictly earlier than key \<open>b\<close> in that order.
\<close>

fun sorts_before_desc :: "int option \<Rightarrow> int option \<Rightarrow> bool" where
  "sorts_before_desc None None = False"
| "sorts_before_desc None (Some y) = True"
| "sorts_before_desc (Some x) None = False"
| "sorts_before_desc (Some x) (Some y) = (x > y)"

text \<open>
  \<^verbatim>\<open>LIMIT 1\<close> of the sorted rows. PostgreSQL leaves the order of rows with equal keys
  open; the model takes the first of them in storage order, and no theorem below depends
  on that choice.
\<close>

fun first_desc :: "audit_log \<Rightarrow> audit_log list \<Rightarrow> audit_log" where
  "first_desc best [] = best"
| "first_desc best (r # rs) =
     first_desc
       (if sorts_before_desc (chain_position r) (chain_position best) then r else best) rs"

text \<open>
  Lines 244 to 258:
  \<^verbatim>\<open>SELECT log_hash INTO prev_hash FROM audit_logs WHERE institution_id = inst_id ORDER BY chain_position DESC LIMIT 1\<close>;
  \<^verbatim>\<open>prev_hash\<close> stays NULL when no row is selected.
\<close>

definition get_previous_log_hash :: "audit_log list \<Rightarrow> uuid \<Rightarrow> string option" where
  "get_previous_log_hash tbl inst_id =
     (case institution_rows tbl inst_id of
        [] \<Rightarrow> None
      | r # rs \<Rightarrow> Some (log_hash (first_desc r rs)))"

text \<open>
  Modelled from the spec: the append operation of the audit chain (section 4.7), whose
  code is not in the sources. It reads the previous log hash and the next chain position
  with the two SQL functions above, derives \<open>logHash\<close> from event type, document hash,
  previous log hash, creation time and actor, and inserts one row. The hash of the five
  fields is the parameter \<open>H\<close>.
\<close>

record append_request =
  ap_event_type :: audit_event
  ap_document_hash :: "string option"
  ap_actor :: "string option"
  ap_created_at :: int

type_synonym log_hasher =
  "audit_event \<Rightarrow> string option \<Rightarrow> string option \<Rightarrow> int \<Rightarrow> string option \<Rightarrow> string"

definition append_entry ::
  "log_hasher \<Rightarrow> audit_log list \<Rightarrow> uuid \<Rightarrow> append_request \<Rightarrow> sql_error + audit_log list" where
  "append_entry H tbl inst_id rq =
     (let prev = get_previous_log_hash tbl inst_id in
      case get_next_chain_position tbl inst_id of
        Inl e \<Rightarrow> Inl e
      | Inr pos \<Rightarrow>
          Inr (tbl @
            [\<lparr>institution_id = Some inst_id,
              event_type = ap_event_type rq,
              document_hash = ap_document_hash rq,
              log_hash = H (ap_event_type rq) (ap_document_hash rq) prev
                           (ap_created_at rq) (ap_actor rq),
              previous_log_hash = prev,
              chain_position = Some pos,
              actor_id = ap_actor rq,
              created_at = ap_created_at rq\<rparr>]))"

text \<open>Sequential appends for one institution; the first SQL error aborts the sequence.\<close>

fun append_all ::
  "log_hasher \<Rightarrow> audit_log list \<Rightarrow> uuid \<Rightarrow> append_request list \<Rightarrow> sql_error + audit_log list" where
  "append_all H tbl inst_id [] = Inr tbl"
| "append_all H tbl inst_id (rq # rqs) =
     (case append_entry H tbl inst_id rq of
        Inl e \<Rightarrow> Inl e
      | Inr tbl' \<Rightarrow> append_all H tbl' inst_id rqs)"

text \<open>
  The invariant of a chain of \<open>k\<close> entries: the institution's rows carry the positions
  \<open>1, ..., k\<close> in insertion order, the first row has no previous hash and every later
  row holds the log hash of the row before it.
\<close>

definition chain_ok :: "audit_log list \<Rightarrow> uuid \<Rightarrow> nat \<Rightarrow> bool" where
  "chain_ok tbl inst_id k =
     (let es = institution_rows tbl inst_id in
        map chain_position es = map (\<lambda>n. Some (int n)) [1..<Suc k] \<and>
        (\<forall>n<length es. previous_log_hash (es ! n) =
           (if n = 0 then None else Some (log_hash (es ! (n - 1))))))"

section \<open>Fingerprint engine: the Merkle commitment over page hashes\<close>

text \<open>
  Bytes are 8-bit words; a content hash is the 64-character lower-case hex rendering of
  a digest, a string.
\<close>

type_synonym byte = "8 word"

text \<open>
  Modelled from the spec: \<open>fingerprintPages\<close> of the fingerprint engine (section 4.1),
  whose code is not in the sources. One level of the fold pairs the nodes from the left:
  two children are concatenated and the concatenation is hashed; an odd trailing node is
  promoted to the next level unhashed. The hash \<open>fingerprint\<close> and the byte encoding
  \<open>enc\<close> of a concatenation of two hashes are parameters.
\<close>

fun merkle_level :: "(byte list \<Rightarrow> string) \<Rightarrow> (string \<Rightarrow> byte list) \<Rightarrow> string list \<Rightarrow> string list" where
  "merkle_level fingerprint enc [] = []"
| "merkle_level fingerprint enc [x] = [x]"
| "merkle_level fingerprint enc (x # y # rest) =
     fingerprint (enc (x @ y)) # merkle_level fingerprint enc rest"

text \<open>
  Modelled from the spec: the fold of section 4.1 is repeated until one root remains. The
  spec names no root for an empty page sequence; the model returns \<open>None\<close> there.
\<close>

function merkle_root :: "(byte list \<Rightarrow> string) \<Rightarrow> (string \<Rightarrow> byte list) \<Rightarrow> string list \<Rightarrow> string option" where
  "merkle_root fingerprint enc [] = None"
| "merkle_root fingerprint enc [x] = Some x"
| "merkle_root fingerprint enc (x # y # rest) =
     merkle_root fingerprint enc (merkle_level fingerprint enc (x # y # rest))"
  by pat_completeness auto
termination
proof (relation "measure (\<lambda>(fingerprint, enc, xs). length xs)")
  show "wf (measure (\<lambda>(fingerprint, enc, xs). length xs))" by simp
next
  fix fingerprint :: "byte list \<Rightarrow> string" and enc :: "string \<Rightarrow> byte list"
    and x y :: string and rest :: "string list"
  have "length (merkle_level fingerprint enc zs) \<le> length zs" for zs
    by (induction fingerprint enc zs rule: merkle_level.induct) auto
  then have "length (merkle_level fingerprint enc rest) \<le> length rest" .
  then show "((fingerprint, enc, merkle_level fingerprint enc (x # y # rest)),
              (fingerprint, enc, x # y # rest))
             \<in> measure (\<lambda>(fingerprint, enc, xs). length xs)"
    by simp
qed

text \<open>
  Modelled from the spec: \<open>fingerprintPages(orderedPageBytes) -> (pageHashes, merkleRoot)\<close>
  hashes each page on its own and commits to the page hashes in order.
\<close>

definition fingerprintPages ::
  "(byte list \<Rightarrow> string) \<Rightarrow> (string \<Rightarrow> byte list) \<Rightarrow> byte list list \<Rightarrow> string list \<times> string option" where
  "fingerprintPages fingerprint enc pages =
     (let pageHashes = map fingerprint pages
      in (pageHashes, merkle_root fingerprint enc pageHashes))"

section \<open>The verification state machine\<close>

text \<open>
  The table \<^verbatim>\<open>ERROR_MESSAGES\<close> of the verify page (src/unnamed/part_002, lines 52 to
  98): the title and the description shown for each code (the icon is left out).
\<close>

fun ERROR_MESSAGES :: "ErrorCode \<Rightarrow> string \<times> string" where
  "ERROR_MESSAGES SUCCESS =
     (''Document Verified'', ''The document signature is valid and authentic.'')"
| "ERROR_MESSAGES QR_NOT_FOUND =
     (''QR Code Not Found'',
      ''No verification QR code was detected in this PDF. Is this a CertiTrust stamped document?'')"
| "ERROR_MESSAGES QR_DECODE_FAIL =
     (''QR Decode Failed'',
      ''A QR code was found but could not be decoded. The image may be damaged or low resolution.'')"
| "ERROR_MESSAGES PAYLOAD_READ_FAIL =
     (''Invalid QR Payload'', ''The QR code does not contain valid verification data.'')"
| "ERROR_MESSAGES HASH_MISMATCH =
     (''Document Modified'', ''The document content has been modified after signing.'')"
| "ERROR_MESSAGES SIGNATURE_MISMATCH =
     (''Signature Invalid'',
      ''The cryptographic signature could not be verified. The document may have been tampered with or signed by an unknown issuer.'')"
| "ERROR_MESSAGES INSTITUTION_NOT_FOUND =
     (''Issuer Not Found'',
      ''The issuing institution is not registered in the CertiTrust network.'')"
| "ERROR_MESSAGES DOCUMENT_REVOKED =
     (''Document Revoked'', ''This document has been revoked by the issuing institution.'')"
| "ERROR_MESSAGES INTERNAL_ERROR =
     (''Verification Error'',
      ''An internal error occurred during verification. Please try again.'')"

text \<open>
  Modelled from the spec: the data of section 3 that the verification pipeline reads.
  The backend that implements the pipeline is not in the sources. A credential payload
  holds \<open>documentHash\<close>, \<open>merkleRoot\<close>, \<open>institutionId\<close>, \<open>issuedAt\<close>,
  \<open>documentType\<close> and an optional \<open>expiresAt\<close>; a proof token carries the payload
  fields and the signature; an institution has an active flag and its key epochs, newest
  first; a credential record has a status.
\<close>

record payload_fields =
  documentHash :: string
  merkleRoot :: string
  institutionId :: string
  issuedAt :: int
  documentType :: string
  expiresAt :: "int option"

record proof_token =
  payload :: payload_fields
  signature :: string

datatype decode_result = Corrupt | Invalid_payload | Token proof_token

record institution =
  isActive :: bool
  key_epochs :: "(nat \<times> string) list"

datatype credential_status = Active | Revoked | Expired

datatype store_fault = Store_unavailable

text \<open>
  Modelled from the spec: the collaborators of section 6 and the pure components of
  sections 4.1 to 4.5, all parameters of the pipeline: the fingerprint, the token codec's
  \<open>decode\<close>, the canonical payload builder, the Ed25519 \<open>verify\<close>, the institution
  store and the credential store (either may fault), and the time of the check.
\<close>

record verifier =
  fingerprint :: "byte list \<Rightarrow> string"
  decode :: "string \<Rightarrow> decode_result"
  buildPayload :: "payload_fields \<Rightarrow> byte list"
  verify :: "byte list \<Rightarrow> string \<Rightarrow> string \<Rightarrow> bool"
  institutions :: "string \<Rightarrow> store_fault + institution option"
  credentials :: "string \<Rightarrow> store_fault + credential_status option"
  now :: int

text \<open>
  What is presented for verification: the token located with the document (\<open>None\<close>
  when there is none) and the bytes of the document.
\<close>

record presentation =
  token :: "string option"
  document :: "byte list"

definition decoded_token :: "verifier \<Rightarrow> presentation \<Rightarrow> proof_token option" where
  "decoded_token v p =
     (case token p of
        None \<Rightarrow> None
      | Some t \<Rightarrow> (case decode v t of Token tk \<Rightarrow> Some tk | _ \<Rightarrow> None))"

text \<open>
  Modelled from the spec: the six checks of section 4.6, each returning the error code
  it terminates with, or \<open>None\<close> when it advances. A check whose input an earlier
  check did not produce advances; the pipeline never reaches it in that case.
  \<^enum> Locate token: \<open>QR_NOT_FOUND\<close> if absent.
  \<^enum> Decode token: \<open>QR_DECODE_FAIL\<close> (corrupt) or \<open>PAYLOAD_READ_FAIL\<close> (well-formed
    container, invalid payload schema).
  \<^enum> Recompute the fingerprint of the presented document and compare it to
    \<open>documentHash\<close>: \<open>HASH_MISMATCH\<close> on divergence.
  \<^enum> Resolve \<open>institutionId\<close>: \<open>INSTITUTION_NOT_FOUND\<close> if unknown or deactivated.
  \<^enum> Check the credential status: \<open>DOCUMENT_REVOKED\<close> if revoked, and also when
    \<open>expiresAt\<close> has passed (a revoked-equivalent failure).
  \<^enum> Verify the signature over the canonical payload with the institution's keys, all
    epochs: \<open>SIGNATURE_MISMATCH\<close> if none matches.
  A fault of a store surfaces as \<open>INTERNAL_ERROR\<close> (section 7).
\<close>

definition stage_locate :: "verifier \<Rightarrow> presentation \<Rightarrow> ErrorCode option" where
  "stage_locate v p = (if token p = None then Some QR_NOT_FOUND else None)"

definition stage_decode :: "verifier \<Rightarrow> presentation \<Rightarrow> ErrorCode option" where
  "stage_decode v p =
     (case token p of
        None \<Rightarrow> None
      | Some t \<Rightarrow>
          (case decode v t of
             Corrupt \<Rightarrow> Some QR_DECODE_FAIL
           | Invalid_payload \<Rightarrow> Some PAYLOAD_READ_FAIL
           | Token tk \<Rightarrow> None))"

definition stage_fingerprint :: "verifier \<Rightarrow> presentation \<Rightarrow> ErrorCode option" where
  "stage_fingerprint v p =
     (case decoded_token v p of
        None \<Rightarrow> None
      | Some tk \<Rightarrow>
          if fingerprint v (document p) \<noteq> documentHash (payload tk) then Some HASH_MISMATCH
          else None)"

definition stage_institution :: "verifier \<Rightarrow> presentation \<Rightarrow> ErrorCode option" where
  "stage_institution v p =
     (case decoded_token v p of
        None \<Rightarrow> None
      | Some tk \<Rightarrow>
          (case institutions v (institutionId (payload tk)) of
             Inl fault \<Rightarrow> Some INTERNAL_ERROR
           | Inr None \<Rightarrow> Some INSTITUTION_NOT_FOUND
           | Inr (Some inst) \<Rightarrow> if isActive inst then None else Some INSTITUTION_NOT_FOUND))"

definition expired :: "verifier \<Rightarrow> proof_token \<Rightarrow> bool" where
  "expired v tk = (case expiresAt (payload tk) of None \<Rightarrow> False | Some t \<Rightarrow> t < now v)"

definition stage_status :: "verifier \<Rightarrow> presentation \<Rightarrow> ErrorCode option" where
  "stage_status v p =
     (case decoded_token v p of
        None \<Rightarrow> None
      | Some tk \<Rightarrow>
          (case credentials v (documentHash (payload tk)) of
             Inl fault \<Rightarrow> Some INTERNAL_ERROR
           | Inr st \<Rightarrow>
               if st = Some Revoked \<or> st = Some Expired \<or> expired v tk then Some DOCUMENT_REVOKED
               else None))"

definition resolved_keys :: "verifier \<Rightarrow> proof_token \<Rightarrow> (nat \<times> string) list" where
  "resolved_keys v tk =
     (case institutions v (institutionId (payload tk)) of
        Inr (Some inst) \<Rightarrow> key_epochs inst
      | _ \<Rightarrow> [])"

definition verifying_epoch :: "verifier \<Rightarrow> proof_token \<Rightarrow> (nat \<times> string) option" where
  "verifying_epoch v tk =
     find (\<lambda>(epoch, publicKey). verify v (buildPayload v (payload tk)) (signature tk) publicKey)
       (resolved_keys v tk)"

definition stage_signature :: "verifier \<Rightarrow> presentation \<Rightarrow> ErrorCode option" where
  "stage_signature v p =
     (case decoded_token v p of
        None \<Rightarrow> None
      | Some tk \<Rightarrow> if verifying_epoch v tk = None then Some SIGNATURE_MISMATCH else None)"

text \<open>
  Modelled from the spec: "a strict, ordered pipeline; each stage either advances or
  terminates with a specific error code (terminal on first failure, no skipping ahead)".
  The audit entry that section 4.6 appends for every outcome is not part of the result
  and is left out of \<open>verify_pipeline\<close>.
\<close>

definition pipeline_stages :: "(verifier \<Rightarrow> presentation \<Rightarrow> ErrorCode option) list" where
  "pipeline_stages =
     [stage_locate, stage_decode, stage_fingerprint, stage_institution, stage_status,
      stage_signature]"

fun first_failure ::
  "(verifier \<Rightarrow> presentation \<Rightarrow> ErrorCode option) list \<Rightarrow> verifier \<Rightarrow> presentation \<Rightarrow> ErrorCode option" where
  "first_failure [] v p = None"
| "first_failure (s # ss) v p =
     (case s v p of Some c \<Rightarrow> Some c | None \<Rightarrow> first_failure ss v p)"

text \<open>
  Modelled from the spec: the result schema of section 6,
  \<open>{valid, error_code, message, documentHash?, institutionId?, merkleRoot?, ...}\<close>,
  with the fields section 4.6 lists for a success. The message of a result is the
  description that \<open>ERROR_MESSAGES\<close> holds for its code.
\<close>

record verification_result =
  valid :: bool
  error_code :: ErrorCode
  message :: string
  result_documentHash :: "string option"
  result_institutionId :: "string option"
  result_merkleRoot :: "string option"
  credentialType :: "string option"
  verified_epoch :: "nat option"

definition failure :: "ErrorCode \<Rightarrow> verification_result" where
  "failure c =
     \<lparr>valid = False, error_code = c, message = snd (ERROR_MESSAGES c),
      result_documentHash = None, result_institutionId = None, result_merkleRoot = None,
      credentialType = None, verified_epoch = None\<rparr>"

definition verify_pipeline :: "verifier \<Rightarrow> presentation \<Rightarrow> verification_result" where
  "verify_pipeline v p =
     (case first_failure pipeline_stages v p of
        Some c \<Rightarrow> failure c
      | None \<Rightarrow>
          (case decoded_token v p of
             None \<Rightarrow> failure INTERNAL_ERROR
           | Some tk \<Rightarrow>
               \<lparr>valid = True, error_code = SUCCESS, message = snd (ERROR_MESSAGES SUCCESS),
                result_documentHash = Some (documentHash (payload tk)),
                result_institutionId = Some (institutionId (payload tk)),
                result_merkleRoot = Some (merkleRoot (payload tk)),
                credentialType = Some (documentType (payload tk)),
                verified_epoch = map_option fst (verifying_epoch v tk)\<rparr>))"

text \<open>Flipping bit \<open>i\<close> of a document (bit \<open>i mod 8\<close> of byte \<open>i div 8\<close>).\<close>

definition flip_document_bit :: "nat \<Rightarrow> byte list \<Rightarrow> byte list" where
  "flip_document_bit i d = d[i div 8 := flip_bit (i mod 8) (d ! (i div 8))]"

section \<open>Concrete inputs\<close>

text \<open>Environments and a request for the concrete runs of \<^verbatim>\<open>verifyHash\<close>.\<close>

definition sample_env :: env where
  "sample_env =
     \<lparr>checkAttested = (\<lambda>h. Return (Some \<lparr>attested = Value (JBool False), attestor = Value JNull,
                                             blockNumber = Value (JNum 0)\<rparr>)),
      documents_by_file_hash = (\<lambda>fh. Return \<lparr>db_data = JNull, db_error = JNull\<rparr>)\<rparr>"

definition network_error :: thrown where
  "network_error =
     Thrown (Value (JStr ''could not detect network'')) (Some ''Error: could not detect network'')"

definition rpc_down_env :: env where
  "rpc_down_env =
     \<lparr>checkAttested = (\<lambda>h. Throw network_error),
      documents_by_file_hash = (\<lambda>fh. Return \<lparr>db_data = JNull, db_error = JNull\<rparr>)\<rparr>"

text \<open>
  Attestation collaborators that reject with \<^verbatim>\<open>undefined\<close>, that resolve to
  \<^verbatim>\<open>null\<close>, and that resolve to a result whose block number is a BigInt.
\<close>

definition rejecting_env :: env where
  "rejecting_env =
     \<lparr>checkAttested = (\<lambda>h. Throw Thrown_nullish),
      documents_by_file_hash = (\<lambda>fh. Return \<lparr>db_data = JNull, db_error = JNull\<rparr>)\<rparr>"



definition get_request :: "string \<Rightarrow> request" where
  "get_request h = \<lparr>search_hash = Return (Some h), http_method = ''GET'',
       json_hash = Throw (Thrown (Value (JStr ''Unexpected end of JSON input''))
         (Some ''SyntaxError: Unexpected end of JSON input''))\<rparr>"

text \<open>Rows, an append request and a hash of the five fields for the concrete chains.\<close>

definition sample_row :: "uuid \<Rightarrow> int option \<Rightarrow> string \<Rightarrow> audit_log" where
  "sample_row inst pos h =
     \<lparr>institution_id = Some inst, event_type = document_issued, document_hash = None,
      log_hash = h, previous_log_hash = None, chain_position = pos, actor_id = None,
      created_at = 0\<rparr>"

definition sample_request :: append_request where
  "sample_request =
     \<lparr>ap_event_type = document_issued, ap_document_hash = Some ''d0'', ap_actor = None,
      ap_created_at = 0\<rparr>"

definition sample_hasher :: log_hasher where
  "sample_hasher ev d prev t a = ''H('' @ (case prev of None \<Rightarrow> ''genesis'' | Some p \<Rightarrow> p) @ '')''"

text \<open>A verifier, a token and documents for the concrete runs of the pipeline.\<close>

definition sample_document :: "byte list" where
  "sample_document = [1, 2]"

definition sample_fingerprint :: "byte list \<Rightarrow> string" where
  "sample_fingerprint d = (if d = sample_document then replicate 64 CHR ''a'' else replicate 64 CHR ''0'')"

definition sample_token :: "string \<Rightarrow> string \<Rightarrow> proof_token" where
  "sample_token inst sig =
     \<lparr>payload = \<lparr>documentHash = replicate 64 CHR ''a'', merkleRoot = replicate 64 CHR ''a'',
                 institutionId = inst, issuedAt = 10, documentType = ''degree'',
                 expiresAt = None\<rparr>,
      signature = sig\<rparr>"

definition sample_verifier :: "credential_status \<Rightarrow> verifier" where
  "sample_verifier st =
     \<lparr>fingerprint = sample_fingerprint,
      decode = (\<lambda>t. if t = ''known'' then Token (sample_token ''inst-1'' ''signed-by-pk1'')
                    else if t = ''forged'' then Token (sample_token ''inst-1'' ''invalid_signature'')
                    else if t = ''garbage'' then Invalid_payload
                    else Corrupt),
      buildPayload = (\<lambda>f. map of_char (documentHash f @ institutionId f)),
      verify = (\<lambda>bytes sig publicKey. sig = ''signed-by-'' @ publicKey),
      institutions =
        (\<lambda>i. if i = ''inst-1''
              then Inr (Some \<lparr>isActive = True, key_epochs = [(2, ''pk2''), (1, ''pk1'')]\<rparr>)
              else Inr None),
      credentials = (\<lambda>h. Inr (Some st)),
      now = 100\<rparr>"

definition present :: "string \<Rightarrow> byte list \<Rightarrow> presentation" where
  "present t d = \<lparr>token = Some t, document = d\<rparr>"

section \<open>Properties of \<^verbatim>\<open>verifyHash\<close>\<close>

lemma request_hash_pure: "snd (request_hash req) = []"
  by (cases "search_hash req")
     (auto simp: request_hash_def bind_def ret_def split: prod.splits outcome.splits)

lemma request_hash_fst:
  "fst (request_hash req) = Return hash \<Longrightarrow> request_hash req = (Return hash, [])"
  using request_hash_pure [of req] by (cases "request_hash req") simp

lemma request_hash_throws:
  assumes "fst (request_hash req) = Throw e"
  shows "search_hash req = Throw e \<or> json_hash req = Throw e"
  using assms
  by (cases "search_hash req")
     (auto simp: request_hash_def bind_def ret_def split: if_splits)

lemma lookup_document_returns: "\<exists>d tr. lookup_document env hash = (Return d, tr)"
  by (auto simp: lookup_document_def try_catch_def bind_def ret_def perform_def
      split: prod.splits outcome.splits)


lemma reportable_TypeError: "reportable (TypeError msg)"
  by (simp add: TypeError_def)

lemma normalized_throws:
  assumes "normalized hash = Throw e"
  shows "reportable e"
proof (cases hash)
  case None
  with assms show ?thesis by (auto simp: normalized_def reportable_TypeError)
next
  case (Some j)
  with assms show ?thesis
    by (cases j) (auto simp: normalized_def reportable_TypeError)
qed

lemma respond_ok_serialisable:
  assumes "serialisable a" and "serialisable b" and "serialisable c"
  shows "\<exists>kvs. respond_ok (Some \<lparr>attested = a, attestor = b, blockNumber = c\<rparr>) d
             = Return \<lparr>status = 200, body = kvs\<rparr> \<and>
           map_of kvs ''ok'' = Some (JBool True) \<and>
           map_of kvs ''attested'' = json_of a \<and>
           map_of kvs ''attestor'' = json_of b \<and>
           map_of kvs ''blockNumber'' = json_of c \<and>
           map_of kvs ''document'' = Some d \<and>
           map_of kvs ''valid'' = None"
  using assms by (cases a; cases b; cases c) (simp_all add: respond_ok_def)

lemma respond_ok_unserialisable:
  assumes "\<not> (serialisable a \<and> serialisable b \<and> serialisable c)"
  shows "\<exists>msg. respond_ok (Some \<lparr>attested = a, attestor = b, blockNumber = c\<rparr>) d
             = Throw (TypeError msg)"
  using assms by (cases a; cases b; cases c) (auto simp: respond_ok_def)

lemma respond_ok_cases:
  "(\<exists>kvs. respond_ok onChain d = Return \<lparr>status = 200, body = kvs\<rparr> \<and>
          map_of kvs ''ok'' = Some (JBool True) \<and> map_of kvs ''document'' = Some d \<and>
          map_of kvs ''valid'' = None) \<or>
   (\<exists>msg. respond_ok onChain d = Throw (TypeError msg))"
proof (cases onChain)
  case None
  then show ?thesis by (auto simp: respond_ok_def)
next
  case (Some oc)
  obtain a b c where oc: "oc = \<lparr>attested = a, attestor = b, blockNumber = c\<rparr>"
    by (cases oc) simp
  show ?thesis
  proof (cases "serialisable a \<and> serialisable b \<and> serialisable c")
    case True
    then show ?thesis
      using respond_ok_serialisable [of a b c d] Some oc by auto
  next
    case False
    then show ?thesis
      using respond_ok_unserialisable [of a b c d] Some oc by auto
  qed
qed

lemma respond_error_reportable:
  assumes "reportable e"
  shows "\<exists>kvs. respond_error e = Return \<lparr>status = 500, body = kvs\<rparr> \<and>
           (kvs = [] \<or> (\<exists>j. kvs = [(''error'', j)]))"
proof (cases e)
  case Thrown_nullish
  with assms show ?thesis by simp
next
  case (Thrown m s)
  with assms show ?thesis
    by (cases m) (auto simp: respond_error_def)
qed

lemma respond_error_message:
  "msg \<noteq> [] \<Longrightarrow> respond_error (Thrown (Value (JStr msg)) s)
     = Return \<lparr>status = 500, body = [(''error'', JStr msg)]\<rparr>"
  "respond_error (Thrown Undefined (Some str))
     = Return \<lparr>status = 500, body = [(''error'', JStr str)]\<rparr>"
  "respond_error (Thrown (Value (JStr [])) (Some str))
     = Return \<lparr>status = 500, body = [(''error'', JStr str)]\<rparr>"
  by (simp_all add: respond_error_def)

lemma error_body_not_result:
  "kvs = [] \<or> (\<exists>j. kvs = [(''error'', j)]) \<Longrightarrow> \<not> is_VerificationResult kvs"
  by (auto simp: is_VerificationResult_def)

lemma verifyHash_with_hash:
  assumes "request_hash req = (Return (Some (JStr h)), [])" and "h \<noteq> []"
  shows "verifyHash env req =
     try_catch
       (bind (perform (CheckAttested (if str_startsWith h ''0x'' then h else ''0x'' @ h))
                (checkAttested env (if str_startsWith h ''0x'' then h else ''0x'' @ h)))
          (\<lambda>onChain. bind (lookup_document env (Some (JStr h)))
             (\<lambda>doc. (respond_ok onChain doc, []))))
       (\<lambda>err. bind (perform (ConsoleError err) (Return ())) (\<lambda>_. (respond_error err, [])))"
  using assms by (simp add: verifyHash_def bind_def normalized_def)


lemma handled:
  assumes "m = (Throw e, tr)" and "reportable e"
  shows "\<exists>r tr'. try_catch m
            (\<lambda>err. bind (perform (ConsoleError err) (Return ())) (\<lambda>_. (respond_error err, [])))
          = (Return r, tr') \<and> ((r = \<lparr>status = 400, body = [(''error'', JStr ''hash required'')]\<rparr> \<or>
       (status r = 200 \<and> map_of (body r) ''ok'' = Some (JBool True) \<and>
          (\<exists>d. map_of (body r) ''document'' = Some d)) \<or>
       (status r = 500 \<and> (body r = [] \<or> (\<exists>j. body r = [(''error'', j)])) \<and>
          (\<exists>e. ConsoleError e \<in> set tr'))) \<and>
      \<not> is_VerificationResult (body r))"
proof -
  from respond_error_reportable [OF assms(2)]
  obtain kvs where r: "respond_error e = Return \<lparr>status = 500, body = kvs\<rparr>"
    and k: "kvs = [] \<or> (\<exists>j. kvs = [(''error'', j)])"
    by blast
  from k have "\<not> is_VerificationResult kvs" by (rule error_body_not_result)
  with r k assms(1) show ?thesis
    by (auto simp: try_catch_def bind_def perform_def)
qed

lemma verifyHash_responds:
  assumes sh: "\<forall>e. search_hash req = Throw e \<longrightarrow> reportable e"
      and jh: "\<forall>e. json_hash req = Throw e \<longrightarrow> reportable e"
      and ca: "\<forall>x e. checkAttested env x = Throw e \<longrightarrow> reportable e"
  shows "\<exists>r tr. verifyHash env req = (Return r, tr) \<and> ((r = \<lparr>status = 400, body = [(''error'', JStr ''hash required'')]\<rparr> \<or>
       (status r = 200 \<and> map_of (body r) ''ok'' = Some (JBool True) \<and>
          (\<exists>d. map_of (body r) ''document'' = Some d)) \<or>
       (status r = 500 \<and> (body r = [] \<or> (\<exists>j. body r = [(''error'', j)])) \<and>
          (\<exists>e. ConsoleError e \<in> set tr))) \<and>
      \<not> is_VerificationResult (body r))"
proof (cases "fst (request_hash req)")
  case (Throw e)
  then have rh: "request_hash req = (Throw e, [])"
    using request_hash_pure [of req] by (cases "request_hash req") simp
  from Throw sh jh have "reportable e"
    using request_hash_throws by blast
  with handled [of "(Throw e, [])" e "[]"] rh show ?thesis
    by (simp add: verifyHash_def bind_def)
next
  case (Return hash)
  then have rh: "request_hash req = (Return hash, [])" by (rule request_hash_fst)
  show ?thesis
  proof (cases "js_truthy hash")
    case False
    with rh show ?thesis
      by (simp add: verifyHash_def try_catch_def bind_def ret_def is_VerificationResult_def)
  next
    case True
    show ?thesis
    proof (cases "normalized hash")
      case (Throw e)
      then have "reportable e" by (rule normalized_throws)
      with handled [of "(Throw e, [])" e "[]"] rh True Throw show ?thesis
        by (simp add: verifyHash_def bind_def)
    next
      case nh: (Return nh)
      show ?thesis
      proof (cases "checkAttested env nh")
        case (Throw e)
        with ca have "reportable e" by blast
        with handled [of "(Throw e, [CheckAttested nh])" e "[CheckAttested nh]"] rh True nh Throw
        show ?thesis
          by (simp add: verifyHash_def bind_def perform_def)
      next
        case oc: (Return onChain)
        obtain d tr2 where ld: "lookup_document env hash = (Return d, tr2)"
          using lookup_document_returns by blast
        from respond_ok_cases [of onChain d] show ?thesis
        proof
          assume "\<exists>kvs. respond_ok onChain d = Return \<lparr>status = 200, body = kvs\<rparr> \<and>
              map_of kvs ''ok'' = Some (JBool True) \<and> map_of kvs ''document'' = Some d \<and>
              map_of kvs ''valid'' = None"
          with rh True nh oc ld show ?thesis
            by (auto simp: verifyHash_def bind_def perform_def try_catch_def is_VerificationResult_def)
        next
          assume "\<exists>msg. respond_ok onChain d = Throw (TypeError msg)"
          then obtain msg where ro: "respond_ok onChain d = Throw (TypeError msg)" by blast
          have "reportable (TypeError msg)" by (rule reportable_TypeError)
          with handled [of "(Throw (TypeError msg), CheckAttested nh # tr2)" "TypeError msg"
              "CheckAttested nh # tr2"] rh True nh oc ld ro
          show ?thesis
            by (simp add: verifyHash_def bind_def perform_def)
        qed
      qed
    qed
  qed
qed

lemma verifyHash_serves:
  assumes "fst (request_hash req) = Return (Some (JStr h))" and "h \<noteq> []"
      and "checkAttested env (if str_startsWith h ''0x'' then h else ''0x'' @ h) = Return (Some oc)"
      and "serialisable (attested oc)" and "serialisable (attestor oc)"
      and "serialisable (blockNumber oc)"
  shows "\<exists>b d. fst (verifyHash env req) = Return \<lparr>status = 200, body = b\<rparr> \<and>
           map_of b ''ok'' = Some (JBool True) \<and>
           map_of b ''attested'' = json_of (attested oc) \<and>
           map_of b ''attestor'' = json_of (attestor oc) \<and>
           map_of b ''blockNumber'' = json_of (blockNumber oc) \<and>
           map_of b ''document'' = Some d \<and>
           map_of b ''valid'' = None \<and>
           fst (lookup_document env (Some (JStr h))) = Return d"
proof -
  have rh: "request_hash req = (Return (Some (JStr h)), [])"
    using assms(1) by (rule request_hash_fst)
  obtain d tr2 where ld: "lookup_document env (Some (JStr h)) = (Return d, tr2)"
    using lookup_document_returns by blast
  obtain a b c where oc: "oc = \<lparr>attested = a, attestor = b, blockNumber = c\<rparr>"
    by (cases oc) simp
  from respond_ok_serialisable [of a b c d] assms(4-6) oc
  obtain kvs where k: "respond_ok (Some oc) d = Return \<lparr>status = 200, body = kvs\<rparr>"
    "map_of kvs ''ok'' = Some (JBool True)"
    "map_of kvs ''attested'' = json_of (attested oc)"
    "map_of kvs ''attestor'' = json_of (attestor oc)"
    "map_of kvs ''blockNumber'' = json_of (blockNumber oc)"
    "map_of kvs ''document'' = Some d"
    "map_of kvs ''valid'' = None"
    by auto
  have "fst (verifyHash env req) = Return \<lparr>status = 200, body = kvs\<rparr>"
    unfolding verifyHash_with_hash [OF rh assms(2), of env]
    using assms(3) ld k(1) by (simp add: try_catch_def bind_def perform_def)
  with k ld show ?thesis by simp
qed


lemma verifyHash_nullish_rejection:
  assumes "fst (request_hash req) = Return (Some (JStr h))" and "h \<noteq> []"
      and "checkAttested env (if str_startsWith h ''0x'' then h else ''0x'' @ h) = Throw Thrown_nullish"
  shows "\<exists>msg. fst (verifyHash env req) = Throw (TypeError msg)"
proof -
  have rh: "request_hash req = (Return (Some (JStr h)), [])"
    using assms(1) by (rule request_hash_fst)
  show ?thesis
    unfolding verifyHash_with_hash [OF rh assms(2), of env]
    using assms(3) by (auto simp: try_catch_def bind_def perform_def respond_error_def)
qed

text \<open>
  Claim C4, amended. Whenever every value thrown by the URL parser, by the body parser
  and by the attestation collaborator is reportable, \<^verbatim>\<open>verifyHash\<close> returns a
  response and throws nothing. The response is status 400 with
  \<^verbatim>\<open>{error: 'hash required'}\<close>, or status 200 with a body that holds
  \<^verbatim>\<open>ok: true\<close> and \<^verbatim>\<open>document\<close>, or status 500 with a body that is
  \<^verbatim>\<open>{}\<close> or \<^verbatim>\<open>{error: ...}\<close> for an exception that was caught and logged. No
  response has the shape \<^verbatim>\<open>{valid, error_code, message}\<close> of a verification
  result. The three responses are pinned: a falsy hash gets exactly the 400 response
  and no collaborator call; for a non-empty hash string, an attestation result with
  serialisable fields gets status 200 with \<^verbatim>\<open>ok: true\<close>; an attestation fault with
  a non-empty message gets 500 with that message after the attestation call and the
  log entry, and a fault without a message gets 500 with \<^verbatim>\<open>String(err)\<close>.
\<close>

theorem verifyHash_always_responds:
  "((\<forall>e. search_hash req = Throw e \<longrightarrow> reportable e) \<and>
    (\<forall>e. json_hash req = Throw e \<longrightarrow> reportable e) \<and>
    (\<forall>x e. checkAttested env x = Throw e \<longrightarrow> reportable e) \<longrightarrow>
      (\<exists>r tr. verifyHash env req = (Return r, tr) \<and>
         (r = \<lparr>status = 400, body = [(''error'', JStr ''hash required'')]\<rparr> \<or>
          (status r = 200 \<and> map_of (body r) ''ok'' = Some (JBool True) \<and>
             (\<exists>d. map_of (body r) ''document'' = Some d)) \<or>
          (status r = 500 \<and> (body r = [] \<or> (\<exists>j. body r = [(''error'', j)])) \<and>
             (\<exists>e. ConsoleError e \<in> set tr))) \<and>
         \<not> is_VerificationResult (body r))) \<and>
   (\<forall>hash. fst (request_hash req) = Return hash \<and> \<not> js_truthy hash \<longrightarrow>
      verifyHash env req =
        (Return \<lparr>status = 400, body = [(''error'', JStr ''hash required'')]\<rparr>, [])) \<and>
   (\<forall>h oc. fst (request_hash req) = Return (Some (JStr h)) \<and> h \<noteq> [] \<and>
        checkAttested env (if str_startsWith h ''0x'' then h else ''0x'' @ h) = Return (Some oc) \<and>
        serialisable (attested oc) \<and> serialisable (attestor oc) \<and>
        serialisable (blockNumber oc) \<longrightarrow>
      (\<exists>b. fst (verifyHash env req) = Return \<lparr>status = 200, body = b\<rparr> \<and>
           map_of b ''ok'' = Some (JBool True) \<and> \<not> is_VerificationResult b)) \<and>
   (\<forall>h msg s. fst (request_hash req) = Return (Some (JStr h)) \<and> h \<noteq> [] \<and> msg \<noteq> [] \<and>
        checkAttested env (if str_startsWith h ''0x'' then h else ''0x'' @ h)
          = Throw (Thrown (Value (JStr msg)) s) \<longrightarrow>
      verifyHash env req =
        (Return \<lparr>status = 500, body = [(''error'', JStr msg)]\<rparr>,
         [CheckAttested (if str_startsWith h ''0x'' then h else ''0x'' @ h),
          ConsoleError (Thrown (Value (JStr msg)) s)])) \<and>
   (\<forall>h s. fst (request_hash req) = Return (Some (JStr h)) \<and> h \<noteq> [] \<and>
        checkAttested env (if str_startsWith h ''0x'' then h else ''0x'' @ h)
          = Throw (Thrown Undefined (Some s)) \<longrightarrow>
      fst (verifyHash env req) = Return \<lparr>status = 500, body = [(''error'', JStr s)]\<rparr>)"
proof (intro conjI allI impI)
  assume "(\<forall>e. search_hash req = Throw e \<longrightarrow> reportable e) \<and>
    (\<forall>e. json_hash req = Throw e \<longrightarrow> reportable e) \<and>
    (\<forall>x e. checkAttested env x = Throw e \<longrightarrow> reportable e)"
  then show "\<exists>r tr. verifyHash env req = (Return r, tr) \<and>
         (r = \<lparr>status = 400, body = [(''error'', JStr ''hash required'')]\<rparr> \<or>
          (status r = 200 \<and> map_of (body r) ''ok'' = Some (JBool True) \<and>
             (\<exists>d. map_of (body r) ''document'' = Some d)) \<or>
          (status r = 500 \<and> (body r = [] \<or> (\<exists>j. body r = [(''error'', j)])) \<and>
             (\<exists>e. ConsoleError e \<in> set tr))) \<and>
         \<not> is_VerificationResult (body r)"
    using verifyHash_responds [of req env] by blast
next
  fix hash
  assume a: "fst (request_hash req) = Return hash \<and> \<not> js_truthy hash"
  then have "request_hash req = (Return hash, [])" using request_hash_fst by blast
  with a show "verifyHash env req =
        (Return \<lparr>status = 400, body = [(''error'', JStr ''hash required'')]\<rparr>, [])"
    by (simp add: verifyHash_def try_catch_def bind_def ret_def)
next
  fix h oc
  assume a: "fst (request_hash req) = Return (Some (JStr h)) \<and> h \<noteq> [] \<and>
        checkAttested env (if str_startsWith h ''0x'' then h else ''0x'' @ h) = Return (Some oc) \<and>
        serialisable (attested oc) \<and> serialisable (attestor oc) \<and>
        serialisable (blockNumber oc)"
  then obtain b where b: "fst (verifyHash env req) = Return \<lparr>status = 200, body = b\<rparr>"
      "map_of b ''ok'' = Some (JBool True)" "map_of b ''valid'' = None"
    using verifyHash_serves [of req h env oc] by blast
  from b(3) have "\<not> is_VerificationResult b"
    by (auto simp: is_VerificationResult_def)
  with b show "\<exists>b. fst (verifyHash env req) = Return \<lparr>status = 200, body = b\<rparr> \<and>
           map_of b ''ok'' = Some (JBool True) \<and> \<not> is_VerificationResult b"
    by blast
next
  fix h msg s
  assume a: "fst (request_hash req) = Return (Some (JStr h)) \<and> h \<noteq> [] \<and> msg \<noteq> [] \<and>
        checkAttested env (if str_startsWith h ''0x'' then h else ''0x'' @ h)
          = Throw (Thrown (Value (JStr msg)) s)"
  then have rh: "request_hash req = (Return (Some (JStr h)), [])"
    using request_hash_fst by blast
  from a have ne: "h \<noteq> []" by simp
  from a show "verifyHash env req =
        (Return \<lparr>status = 500, body = [(''error'', JStr msg)]\<rparr>,
         [CheckAttested (if str_startsWith h ''0x'' then h else ''0x'' @ h),
          ConsoleError (Thrown (Value (JStr msg)) s)])"
    unfolding verifyHash_with_hash [OF rh ne, of env]
    by (simp add: try_catch_def bind_def perform_def respond_error_message)
next
  fix h s
  assume a: "fst (request_hash req) = Return (Some (JStr h)) \<and> h \<noteq> [] \<and>
        checkAttested env (if str_startsWith h ''0x'' then h else ''0x'' @ h)
          = Throw (Thrown Undefined (Some s))"
  then have rh: "request_hash req = (Return (Some (JStr h)), [])"
    using request_hash_fst by blast
  from a have ne: "h \<noteq> []" by simp
  from a show "fst (verifyHash env req) = Return \<lparr>status = 500, body = [(''error'', JStr s)]\<rparr>"
    unfolding verifyHash_with_hash [OF rh ne, of env]
    by (simp add: try_catch_def bind_def perform_def respond_error_message)
qed

theorem verifyHash_always_responds_witness:
  "(\<exists>r tr. verifyHash rpc_down_env (get_request ''ab'') = (Return r, tr) \<and>
      \<not> is_VerificationResult (body r)) \<and>
   verifyHash sample_env (get_request '''') =
     (Return \<lparr>status = 400, body = [(''error'', JStr ''hash required'')]\<rparr>, []) \<and>
   (\<exists>b. fst (verifyHash sample_env (get_request ''ab'')) = Return \<lparr>status = 200, body = b\<rparr> \<and>
      map_of b ''ok'' = Some (JBool True)) \<and>
   verifyHash rpc_down_env (get_request ''ab'') =
     (Return \<lparr>status = 500, body = [(''error'', JStr ''could not detect network'')]\<rparr>,
      [CheckAttested ''0xab'', ConsoleError network_error])"
proof -
  have sh: "\<forall>e. search_hash (get_request ''ab'') = Throw e \<longrightarrow> reportable e"
    by (simp add: get_request_def)
  have jh: "\<forall>e. json_hash (get_request ''ab'') = Throw e \<longrightarrow> reportable e"
    by (simp add: get_request_def)
  have ca: "\<forall>x e. checkAttested rpc_down_env x = Throw e \<longrightarrow> reportable e"
    by (auto simp: rpc_down_env_def network_error_def)
  have rh: "fst (request_hash (get_request ''ab'')) = Return (Some (JStr ''ab''))"
    by (simp add: request_hash_def get_request_def bind_def ret_def)
  have rh0: "fst (request_hash (get_request '''')) = Return (Some JNull)"
    by (simp add: request_hash_def get_request_def bind_def ret_def)
  have t: "checkAttested rpc_down_env (if str_startsWith ''ab'' ''0x'' then ''ab'' else ''0x'' @ ''ab'')
       = Throw (Thrown (Value (JStr ''could not detect network'')) (Some ''Error: could not detect network''))"
    by (simp add: rpc_down_env_def network_error_def)
  have u: "checkAttested sample_env (if str_startsWith ''ab'' ''0x'' then ''ab'' else ''0x'' @ ''ab'')
       = Return (Some \<lparr>attested = Value (JBool False), attestor = Value JNull,
           blockNumber = Value (JNum 0)\<rparr>)"
    by (simp add: sample_env_def)
  have 1: "\<exists>r tr. verifyHash rpc_down_env (get_request ''ab'') = (Return r, tr) \<and>
      \<not> is_VerificationResult (body r)"
    using verifyHash_always_responds [of "get_request ''ab''" rpc_down_env] sh jh ca by blast
  have 2: "verifyHash sample_env (get_request '''') =
     (Return \<lparr>status = 400, body = [(''error'', JStr ''hash required'')]\<rparr>, [])"
    using verifyHash_always_responds [of "get_request ''''" sample_env] rh0 by simp
  have 3: "\<exists>b. fst (verifyHash sample_env (get_request ''ab'')) = Return \<lparr>status = 200, body = b\<rparr> \<and>
      map_of b ''ok'' = Some (JBool True)"
    using verifyHash_always_responds [of "get_request ''ab''" sample_env] rh u by fastforce
  have 4: "verifyHash rpc_down_env (get_request ''ab'') =
     (Return \<lparr>status = 500, body = [(''error'', JStr ''could not detect network'')]\<rparr>,
      [CheckAttested ''0xab'', ConsoleError network_error])"
    using verifyHash_always_responds [of "get_request ''ab''" rpc_down_env] rh t
    by (simp add: str_startsWith_def network_error_def)
  from 1 2 3 4 show ?thesis by blast
qed

text \<open>
  Claim C4 as stated fails twice. When the attestation collaborator faults, the response
  body is \<^verbatim>\<open>{error: 'could not detect network'}\<close>, which is not a verification
  result and carries no \<^verbatim>\<open>INTERNAL_ERROR\<close> code. And when the attestation
  collaborator rejects with \<^verbatim>\<open>undefined\<close>, reading \<^verbatim>\<open>err.message\<close> inside the
  \<^verbatim>\<open>catch\<close> raises a TypeError that leaves \<^verbatim>\<open>verifyHash\<close>.
\<close>

theorem verifyHash_schema_counterexample:
  "fst (verifyHash rpc_down_env (get_request (replicate 64 CHR ''a''))) =
     Return \<lparr>status = 500, body = [(''error'', JStr ''could not detect network'')]\<rparr> \<and>
   \<not> is_VerificationResult [(''error'', JStr ''could not detect network'')] \<and>
   map_of [(''error'', JStr ''could not detect network'')] ''error_code'' \<noteq>
     Some (JStr (code_name INTERNAL_ERROR)) \<and>
   (\<exists>msg. fst (verifyHash rejecting_env (get_request (replicate 64 CHR ''a''))) =
     Throw (TypeError msg))"
  by (auto simp: verifyHash_def try_catch_def bind_def ret_def perform_def normalized_def
      request_hash_def get_request_def rpc_down_env_def rejecting_env_def network_error_def
      str_startsWith_def respond_error_def is_VerificationResult_def)




text \<open>
  Claim C10, amended. For every non-empty hash string \<open>h\<close> that does not start with
  \<^verbatim>\<open>0x\<close>, a request carrying \<open>h\<close> and a request carrying \<^verbatim>\<open>0x\<close> followed
  by \<open>h\<close> get equal results with equal collaborator calls: the attestation query is
  made with the prefixed hash, and the database lookup (made when the attestation query
  returns) with the unprefixed one. Besides these two queries the handler only logs:
  when the attestation query throws, the calls are the query and the log entry, and
  when it returns a result with serialisable fields, the two queries and nothing else.
\<close>

theorem verifyHash_prefix_insensitive:
  assumes "h \<noteq> []" and "\<not> str_startsWith h ''0x''"
      and "fst (request_hash req) = Return (Some (JStr h))"
      and "fst (request_hash req') = Return (Some (JStr (''0x'' @ h)))"
  shows "verifyHash env req' = verifyHash env req \<and>
         [c \<leftarrow> snd (verifyHash env req). is_query c] =
           CheckAttested (''0x'' @ h) #
             (case checkAttested env (''0x'' @ h) of
                Return oc \<Rightarrow> [DocumentsByFileHash h]
              | Throw e \<Rightarrow> []) \<and>
         (\<forall>e. checkAttested env (''0x'' @ h) = Throw e \<longrightarrow>
            snd (verifyHash env req) = [CheckAttested (''0x'' @ h), ConsoleError e]) \<and>
         (\<forall>oc. checkAttested env (''0x'' @ h) = Return (Some oc) \<and>
              serialisable (attested oc) \<and> serialisable (attestor oc) \<and>
              serialisable (blockNumber oc) \<longrightarrow>
            snd (verifyHash env req) = [CheckAttested (''0x'' @ h), DocumentsByFileHash h])"
proof -
  let ?H = "\<lambda>err. bind (perform (ConsoleError err) (Return ())) (\<lambda>_. (respond_error err, []))"
  have rh: "request_hash req = (Return (Some (JStr h)), [])"
    using assms(3) by (rule request_hash_fst)
  have rh': "request_hash req' = (Return (Some (JStr (''0x'' @ h))), [])"
    using assms(4) by (rule request_hash_fst)
  have sw: "str_startsWith (''0x'' @ h) ''0x''"
    by (simp add: str_startsWith_def)
  have ne': "''0x'' @ h \<noteq> []" by simp
  have ld: "lookup_document env (Some (JStr (''0x'' @ h))) = lookup_document env (Some (JStr h))"
    using sw assms(2) by (simp add: lookup_document_def fileHash_def)
  have vh: "verifyHash env req =
     try_catch
       (bind (perform (CheckAttested (''0x'' @ h)) (checkAttested env (''0x'' @ h)))
          (\<lambda>onChain. bind (lookup_document env (Some (JStr h)))
             (\<lambda>doc. (respond_ok onChain doc, [])))) ?H"
    using verifyHash_with_hash [OF rh assms(1), of env] assms(2) by simp
  have vh': "verifyHash env req' =
     try_catch
       (bind (perform (CheckAttested (''0x'' @ h)) (checkAttested env (''0x'' @ h)))
          (\<lambda>onChain. bind (lookup_document env (Some (JStr h)))
             (\<lambda>doc. (respond_ok onChain doc, [])))) ?H"
    using verifyHash_with_hash [OF rh' ne', of env] sw ld by simp
  have eq: "verifyHash env req' = verifyHash env req"
    using vh vh' by simp
  have ldt: "\<exists>d. lookup_document env (Some (JStr h)) = (Return d, [DocumentsByFileHash h])"
    using assms(2)
    by (cases "documents_by_file_hash env h")
       (simp_all add: lookup_document_def fileHash_def try_catch_def bind_def ret_def perform_def)
  then obtain d where d: "lookup_document env (Some (JStr h)) = (Return d, [DocumentsByFileHash h])"
    by blast
  have thrown: "snd (verifyHash env req) = [CheckAttested (''0x'' @ h), ConsoleError e]"
    if "checkAttested env (''0x'' @ h) = Throw e" for e
    unfolding vh using that
    by (cases "respond_error e") (simp_all add: try_catch_def bind_def perform_def)
  have returned: "snd (verifyHash env req) =
       CheckAttested (''0x'' @ h) # DocumentsByFileHash h #
         (case respond_ok onChain d of Return r \<Rightarrow> [] | Throw e \<Rightarrow> [ConsoleError e])"
    if "checkAttested env (''0x'' @ h) = Return onChain" for onChain
    unfolding vh using that d
    by (cases "respond_ok onChain d")
       (simp_all add: try_catch_def bind_def perform_def split: prod.splits)
  have queries: "[c \<leftarrow> snd (verifyHash env req). is_query c] =
           CheckAttested (''0x'' @ h) #
             (case checkAttested env (''0x'' @ h) of
                Return oc \<Rightarrow> [DocumentsByFileHash h]
              | Throw e \<Rightarrow> [])"
  proof (cases "checkAttested env (''0x'' @ h)")
    case (Throw e)
    with thrown [OF Throw] show ?thesis by simp
  next
    case (Return onChain)
    with returned [OF Return] show ?thesis
      by (cases "respond_ok onChain d") simp_all
  qed
  have served: "snd (verifyHash env req) = [CheckAttested (''0x'' @ h), DocumentsByFileHash h]"
    if ca: "checkAttested env (''0x'' @ h) = Return (Some oc)"
      and s: "serialisable (attested oc)" "serialisable (attestor oc)" "serialisable (blockNumber oc)"
    for oc
  proof -
    obtain a b c where oc: "oc = \<lparr>attested = a, attestor = b, blockNumber = c\<rparr>"
      by (cases oc) simp
    from respond_ok_serialisable [of a b c d] s oc
    obtain kvs where "respond_ok (Some oc) d = Return \<lparr>status = 200, body = kvs\<rparr>" by auto
    with returned [OF ca] show ?thesis by simp
  qed
  from eq queries thrown served show ?thesis by blast
qed

theorem verifyHash_prefix_insensitive_witness:
  "verifyHash sample_env (get_request ''0xab'') = verifyHash sample_env (get_request ''ab'') \<and>
   snd (verifyHash sample_env (get_request ''ab'')) = [CheckAttested ''0xab'', DocumentsByFileHash ''ab'']"
proof -
  have 1: "''ab'' \<noteq> []" by simp
  have 2: "\<not> str_startsWith ''ab'' ''0x''" by (simp add: str_startsWith_def)
  have 3: "fst (request_hash (get_request ''ab'')) = Return (Some (JStr ''ab''))"
    by (simp add: request_hash_def get_request_def bind_def ret_def)
  have 4: "fst (request_hash (get_request ''0xab'')) = Return (Some (JStr (''0x'' @ ''ab'')))"
    by (simp add: request_hash_def get_request_def bind_def ret_def)
  show ?thesis
    using verifyHash_prefix_insensitive [OF 1 2 3 4, of sample_env]
    by (simp add: sample_env_def)
qed

text \<open>
  Claim C10 as stated fails at the empty string, which does not start with
  \<^verbatim>\<open>0x\<close>: the empty hash is falsy and answered with 400 without any call, while
  \<^verbatim>\<open>0x\<close> alone is truthy and is looked up.
\<close>

theorem verifyHash_empty_hash_counterexample:
  "\<not> str_startsWith '''' ''0x'' \<and>
   verifyHash sample_env (get_request '''') =
     (Return \<lparr>status = 400, body = [(''error'', JStr ''hash required'')]\<rparr>, []) \<and>
   snd (verifyHash sample_env (get_request (''0x'' @ ''''))) =
     [CheckAttested ''0x'', DocumentsByFileHash ''''] \<and>
   verifyHash sample_env (get_request (''0x'' @ '''')) \<noteq> verifyHash sample_env (get_request '''')"
  by (simp add: verifyHash_def try_catch_def bind_def ret_def perform_def normalized_def
      lookup_document_def fileHash_def request_hash_def get_request_def sample_env_def
      str_startsWith_def respond_ok_def)

section \<open>Properties of the audit hash chain\<close>

lemma sql_max_Max: "xs \<noteq> [] \<Longrightarrow> sql_max xs = Some (Max (set xs))"
  by (cases xs) (simp_all add: Max.set_eq_fold [symmetric] del: set_simps)

lemma sql_max_upto:
  "sql_max (map int [Suc 0..<Suc k]) = (if k = 0 then None else Some (int k))"
proof (cases "k = 0")
  case True
  then show ?thesis by simp
next
  case False
  have ne: "map int [Suc 0..<Suc k] \<noteq> []" using False by simp
  have s: "set (map int [Suc 0..<Suc k]) = int ` {Suc 0..k}"
    by (simp add: atLeastLessThanSuc_atLeastAtMost del: upt_Suc)
  have "Max (int ` {Suc 0..k}) = int k"
  proof (rule Max_eqI)
    show "finite (int ` {Suc 0..k})" by simp
    show "y \<le> int k" if "y \<in> int ` {Suc 0..k}" for y using that by auto
    show "int k \<in> int ` {Suc 0..k}" using False by auto
  qed
  with s have "Max (set (map int [Suc 0..<Suc k])) = int k" by simp
  with sql_max_Max [OF ne] False show ?thesis by simp
qed

lemma map_filter_Some: "List.map_filter f xs = ys" if "map f xs = map Some ys"
  using that by (induction xs arbitrary: ys) (auto simp: List.map_filter_simps)

lemma next_position_of_chain:
  assumes "map chain_position (institution_rows tbl inst) = map (\<lambda>n. Some (int n)) [1..<Suc k]"
      and "int k < bigint_max"
  shows "get_next_chain_position tbl inst = Inr (int k + 1)"
proof -
  have "map chain_position (institution_rows tbl inst) = map Some (map int [1..<Suc k])"
    using assms(1) by simp
  then have "List.map_filter chain_position (institution_rows tbl inst) = map int [1..<Suc k]"
    by (rule map_filter_Some)
  then show ?thesis
    using assms(2)
    by (simp add: get_next_chain_position_def max_chain_position_def sql_max_upto
        bigint_succ_def bigint_max_def del: upt_Suc)
qed

lemma first_desc_increasing:
  assumes "map chain_position (best # rs) = map Some ps" and "sorted_wrt (<) ps"
  shows "first_desc best rs = last (best # rs)"
  using assms
proof (induction rs arbitrary: best ps)
  case Nil
  then show ?case by simp
next
  case (Cons r rs)
  then obtain p q qs where ps: "ps = p # q # qs"
    and bp: "chain_position best = Some p" and rq: "chain_position r = Some q"
    by (cases ps; cases "tl ps") auto
  with Cons.prems have "p < q" by simp
  with bp rq have "first_desc best (r # rs) = first_desc r rs" by simp
  moreover have "first_desc r rs = last (r # rs)"
    using Cons.prems ps by (intro Cons.IH [of r "q # qs"]) auto
  ultimately show ?case by simp
qed

lemma previous_hash_of_chain:
  assumes "map chain_position (institution_rows tbl inst) = map (\<lambda>n. Some (int n)) [1..<Suc k]"
  shows "get_previous_log_hash tbl inst =
           (if institution_rows tbl inst = [] then None
            else Some (log_hash (last (institution_rows tbl inst))))"
proof (cases "institution_rows tbl inst")
  case Nil
  then show ?thesis by (simp add: get_previous_log_hash_def)
next
  case (Cons r rs)
  have "map chain_position (r # rs) = map Some (map int [1..<Suc k])"
    using assms Cons by simp
  moreover have "sorted_wrt (<) (map int [1..<Suc k])"
    by (simp add: sorted_wrt_map del: upt_Suc)
  ultimately have "first_desc r rs = last (r # rs)"
    by (rule first_desc_increasing)
  with Cons show ?thesis by (simp add: get_previous_log_hash_def)
qed

lemma append_entry_chain:
  assumes "chain_ok tbl inst k" and "int k < bigint_max"
  shows "\<exists>tbl'. append_entry H tbl inst rq = Inr tbl' \<and> chain_ok tbl' inst (Suc k)"
proof -
  let ?es = "institution_rows tbl inst"
  from assms(1) have pos: "map chain_position ?es = map (\<lambda>n. Some (int n)) [1..<Suc k]"
    and link: "\<forall>n<length ?es. previous_log_hash (?es ! n) =
           (if n = 0 then None else Some (log_hash (?es ! (n - 1))))"
    by (simp_all add: chain_ok_def Let_def)
  note nxt = next_position_of_chain [OF pos assms(2)]
  note prv = previous_hash_of_chain [OF pos]
  define e where "e = \<lparr>institution_id = Some inst,
              event_type = ap_event_type rq,
              document_hash = ap_document_hash rq,
              log_hash = H (ap_event_type rq) (ap_document_hash rq) (get_previous_log_hash tbl inst)
                           (ap_created_at rq) (ap_actor rq),
              previous_log_hash = get_previous_log_hash tbl inst,
              chain_position = Some (int k + 1),
              actor_id = ap_actor rq,
              created_at = ap_created_at rq\<rparr>"
  have ap: "append_entry H tbl inst rq = Inr (tbl @ [e])"
    by (simp add: append_entry_def nxt e_def Let_def)
  have rows: "institution_rows (tbl @ [e]) inst = ?es @ [e]"
    by (simp add: institution_rows_def e_def)
  have pos': "map chain_position (?es @ [e]) = map (\<lambda>n. Some (int n)) [1..<Suc (Suc k)]"
    using pos by (simp add: e_def)
  have link': "previous_log_hash ((?es @ [e]) ! n) =
           (if n = 0 then None else Some (log_hash ((?es @ [e]) ! (n - 1))))"
    if "n < length (?es @ [e])" for n
  proof (cases "n < length ?es")
    case True
    then show ?thesis using link by (auto simp: nth_append)
  next
    case False
    with that have n: "n = length ?es" by simp
    show ?thesis
    proof (cases "?es = []")
      case True
      with n prv show ?thesis by (simp add: e_def)
    next
      case False
      with n prv show ?thesis
        by (simp add: e_def nth_append last_conv_nth)
    qed
  qed
  show ?thesis
    using ap rows pos' link' by (auto simp: chain_ok_def Let_def)
qed

lemma append_all_chain:
  assumes "chain_ok tbl inst k" and "int k + int (length rqs) \<le> bigint_max"
  shows "\<exists>tbl'. append_all H tbl inst rqs = Inr tbl' \<and> chain_ok tbl' inst (k + length rqs)"
  using assms
proof (induction rqs arbitrary: tbl k)
  case Nil
  then show ?case by simp
next
  case (Cons rq rqs)
  then have "int k < bigint_max" by simp
  from append_entry_chain [OF Cons.prems(1) this, of H rq]
  obtain tbl1 where 1: "append_entry H tbl inst rq = Inr tbl1" and 2: "chain_ok tbl1 inst (Suc k)"
    by blast
  from Cons.prems(2) have "int (Suc k) + int (length rqs) \<le> bigint_max" by simp
  from Cons.IH [OF 2 this] 1 show ?case by simp
qed

lemma chain_ok_empty:
  "\<forall>r\<in>set tbl. institution_id r \<noteq> Some inst \<Longrightarrow> chain_ok tbl inst 0"
  by (simp add: chain_ok_def institution_rows_def filter_empty_conv[THEN iffD2])

lemma no_rows: "\<forall>r\<in>set tbl. institution_id r \<noteq> Some inst \<Longrightarrow> institution_rows tbl inst = []"
  by (simp add: institution_rows_def filter_empty_conv)

lemma sorts_before_desc_asym:
  "sorts_before_desc a b \<Longrightarrow> \<not> sorts_before_desc b a"
  by (cases a; cases b) auto

lemma sorts_before_desc_negtrans:
  "\<not> sorts_before_desc a b \<Longrightarrow> \<not> sorts_before_desc b c \<Longrightarrow> \<not> sorts_before_desc a c"
  by (cases a; cases b; cases c) auto

lemma first_desc_greatest:
  "first_desc best rs \<in> set (best # rs) \<and>
   (\<forall>x\<in>set (best # rs).
      \<not> sorts_before_desc (chain_position x) (chain_position (first_desc best rs)))"
proof (induction rs arbitrary: best)
  case Nil
  show ?case by (cases "chain_position best") auto
next
  case (Cons r rs)
  let ?b = "if sorts_before_desc (chain_position r) (chain_position best) then r else best"
  let ?res = "first_desc ?b rs"
  from Cons.IH [of ?b]
  have mem: "?res \<in> set (?b # rs)"
    and top: "\<forall>x\<in>set (?b # rs). \<not> sorts_before_desc (chain_position x) (chain_position ?res)"
    by blast+
  from top have b_res: "\<not> sorts_before_desc (chain_position ?b) (chain_position ?res)"
    by simp
  have "\<not> sorts_before_desc (chain_position best) (chain_position ?b)"
    by (cases "chain_position best"; cases "chain_position r") auto
  then have 1: "\<not> sorts_before_desc (chain_position best) (chain_position ?res)"
    using b_res by (rule sorts_before_desc_negtrans)
  have "\<not> sorts_before_desc (chain_position r) (chain_position ?b)"
    by (cases "chain_position best"; cases "chain_position r") auto
  then have 2: "\<not> sorts_before_desc (chain_position r) (chain_position ?res)"
    using b_res by (rule sorts_before_desc_negtrans)
  have 3: "?res \<in> set (best # r # rs)"
    using mem by (auto split: if_splits)
  from 1 2 3 top show ?case by auto
qed

text \<open>
  Claim C5, amended. \<^verbatim>\<open>get_next_chain_position\<close> returns 1 when the institution has
  no entries, and the greatest existing position plus one otherwise, provided that
  position is below the BIGINT maximum \<open>2^63 - 1\<close>. Consequently \<open>N\<close> sequential
  appends to an institution without entries, \<open>N \<le> 2^63 - 1\<close>, succeed and store the
  positions \<open>1, 2, ..., N\<close> in order, with no gap and no repeat.
\<close>

theorem chain_position_sequence:
  "((\<forall>r\<in>set tbl. institution_id r \<noteq> Some inst) \<longrightarrow> get_next_chain_position tbl inst = Inr 1) \<and>
   (List.map_filter chain_position (institution_rows tbl inst) \<noteq> [] \<and>
      Max (set (List.map_filter chain_position (institution_rows tbl inst))) < bigint_max \<longrightarrow>
      get_next_chain_position tbl inst =
        Inr (Max (set (List.map_filter chain_position (institution_rows tbl inst))) + 1)) \<and>
   ((\<forall>r\<in>set tbl. institution_id r \<noteq> Some inst) \<and> int (length rqs) \<le> bigint_max \<longrightarrow>
      (\<exists>tbl'. append_all H tbl inst rqs = Inr tbl' \<and>
         map chain_position (institution_rows tbl' inst) =
           map (\<lambda>n. Some (int n)) [1..<Suc (length rqs)]))"
proof (intro conjI impI)
  assume "\<forall>r\<in>set tbl. institution_id r \<noteq> Some inst"
  then have "institution_rows tbl inst = []" by (rule no_rows)
  then show "get_next_chain_position tbl inst = Inr 1"
    by (simp add: get_next_chain_position_def max_chain_position_def List.map_filter_simps
        bigint_succ_def bigint_max_def)
next
  let ?ps = "List.map_filter chain_position (institution_rows tbl inst)"
  assume a: "?ps \<noteq> [] \<and> Max (set ?ps) < bigint_max"
  then have "sql_max ?ps = Some (Max (set ?ps))" by (simp add: sql_max_Max)
  with a show "get_next_chain_position tbl inst = Inr (Max (set ?ps) + 1)"
    by (simp add: get_next_chain_position_def max_chain_position_def bigint_succ_def)
next
  assume a: "(\<forall>r\<in>set tbl. institution_id r \<noteq> Some inst) \<and> int (length rqs) \<le> bigint_max"
  then have "chain_ok tbl inst 0" by (simp add: chain_ok_empty)
  moreover from a have "int 0 + int (length rqs) \<le> bigint_max" by simp
  ultimately obtain tbl' where "append_all H tbl inst rqs = Inr tbl'"
    and "chain_ok tbl' inst (0 + length rqs)"
    using append_all_chain by blast
  then show "\<exists>tbl'. append_all H tbl inst rqs = Inr tbl' \<and>
         map chain_position (institution_rows tbl' inst) =
           map (\<lambda>n. Some (int n)) [1..<Suc (length rqs)]"
    by (simp add: chain_ok_def Let_def)
qed

theorem chain_position_sequence_witness:
  "get_next_chain_position [] ''inst-1'' = Inr 1 \<and>
   get_next_chain_position [sample_row ''inst-1'' (Some 4) ''h4'', sample_row ''inst-1'' (Some 7) ''h7'',
      sample_row ''inst-2'' (Some 9) ''h9''] ''inst-1'' = Inr 8 \<and>
   (\<exists>tbl'. append_all sample_hasher [sample_row ''inst-2'' (Some 9) ''h9''] ''inst-1''
        [sample_request, sample_request, sample_request] = Inr tbl' \<and>
      map chain_position (institution_rows tbl' ''inst-1'') = [Some 1, Some 2, Some 3])"
proof -
  let ?t = "[sample_row ''inst-1'' (Some 4) ''h4'', sample_row ''inst-1'' (Some 7) ''h7'',
      sample_row ''inst-2'' (Some 9) ''h9'']"
  have 1: "get_next_chain_position [] ''inst-1'' = Inr 1"
    using chain_position_sequence [of "[]" "''inst-1''" "[]" sample_hasher] by simp
  have "List.map_filter chain_position (institution_rows ?t ''inst-1'') = [4, 7]"
    by (simp add: institution_rows_def sample_row_def List.map_filter_simps)
  then have 2: "get_next_chain_position ?t ''inst-1'' = Inr 8"
    using chain_position_sequence [of ?t "''inst-1''" "[]" sample_hasher]
    by (simp add: bigint_max_def)
  have 3: "\<exists>tbl'. append_all sample_hasher [sample_row ''inst-2'' (Some 9) ''h9''] ''inst-1''
        [sample_request, sample_request, sample_request] = Inr tbl' \<and>
      map chain_position (institution_rows tbl' ''inst-1'') = [Some 1, Some 2, Some 3]"
    using chain_position_sequence [of "[sample_row ''inst-2'' (Some 9) ''h9'']" "''inst-1''"
        "[sample_request, sample_request, sample_request]" sample_hasher]
    by (simp add: sample_row_def bigint_max_def upt_rec)
  from 1 2 3 show ?thesis by blast
qed

text \<open>
  Claim C5 as stated fails at the BIGINT maximum: with an entry at position
  \<open>2^63 - 1\<close> the function raises \<^verbatim>\<open>bigint out of range\<close> and returns no
  position.
\<close>

theorem chain_position_overflow_counterexample:
  "List.map_filter chain_position
     (institution_rows [sample_row ''inst-1'' (Some 9223372036854775807) ''h''] ''inst-1'')
     = [9223372036854775807] \<and>
   get_next_chain_position [sample_row ''inst-1'' (Some 9223372036854775807) ''h''] ''inst-1''
     = Inl Bigint_out_of_range \<and>
   get_next_chain_position [sample_row ''inst-1'' (Some 9223372036854775807) ''h''] ''inst-1''
     \<noteq> Inr (9223372036854775807 + 1)"
  by (simp add: get_next_chain_position_def max_chain_position_def institution_rows_def
      sample_row_def List.map_filter_simps bigint_succ_def bigint_max_def)

text \<open>
  What \<^verbatim>\<open>get_previous_log_hash\<close> does on a table whose entries all have a chain
  position: it returns NULL when the institution has no entries, and otherwise the log
  hash of an entry whose position is the greatest. In a chain built by \<open>N\<close> sequential
  appends to an institution without entries (\<open>N \<le> 2^63 - 1\<close>), the first entry
  carries NULL as previous log hash and every later entry carries the log hash of the
  entry before it.
\<close>

lemma previous_log_hash_links:
  "((\<forall>r\<in>set tbl. institution_id r \<noteq> Some inst) \<longrightarrow> get_previous_log_hash tbl inst = None) \<and>
   ((\<exists>r\<in>set tbl. institution_id r = Some inst) \<and>
    (\<forall>r\<in>set tbl. institution_id r = Some inst \<longrightarrow> chain_position r \<noteq> None) \<longrightarrow>
      (\<exists>r\<in>set tbl. \<exists>p. institution_id r = Some inst \<and> chain_position r = Some p \<and>
         get_previous_log_hash tbl inst = Some (log_hash r) \<and>
         (\<forall>r'\<in>set tbl. \<forall>p'. institution_id r' = Some inst \<and> chain_position r' = Some p'
            \<longrightarrow> p' \<le> p))) \<and>
   ((\<forall>r\<in>set tbl. institution_id r \<noteq> Some inst) \<and> int (length rqs) \<le> bigint_max \<longrightarrow>
      (\<exists>tbl'. append_all H tbl inst rqs = Inr tbl' \<and>
         length (institution_rows tbl' inst) = length rqs \<and>
         (\<forall>n<length rqs. previous_log_hash (institution_rows tbl' inst ! n) =
            (if n = 0 then None else Some (log_hash (institution_rows tbl' inst ! (n - 1)))))))"
proof (intro conjI impI)
  assume "\<forall>r\<in>set tbl. institution_id r \<noteq> Some inst"
  then have "institution_rows tbl inst = []" by (rule no_rows)
  then show "get_previous_log_hash tbl inst = None"
    by (simp add: get_previous_log_hash_def)
next
  assume a: "(\<exists>r\<in>set tbl. institution_id r = Some inst) \<and>
    (\<forall>r\<in>set tbl. institution_id r = Some inst \<longrightarrow> chain_position r \<noteq> None)"
  then obtain e es where rows: "institution_rows tbl inst = e # es"
    by (cases "institution_rows tbl inst") (auto simp: institution_rows_def filter_empty_conv)
  let ?res = "first_desc e es"
  have set_rows: "set (e # es) = {r \<in> set tbl. institution_id r = Some inst}"
    using rows [symmetric] by (simp add: institution_rows_def)
  from first_desc_greatest [of e es]
  have mem: "?res \<in> set (e # es)"
    and top: "\<forall>x\<in>set (e # es). \<not> sorts_before_desc (chain_position x) (chain_position ?res)"
    by blast+
  from mem set_rows have res_tbl: "?res \<in> set tbl" and res_inst: "institution_id ?res = Some inst"
    by auto
  with a obtain p where p: "chain_position ?res = Some p" by auto
  have "p' \<le> p" if "r' \<in> set tbl" "institution_id r' = Some inst" "chain_position r' = Some p'"
    for r' p'
  proof -
    from that set_rows have "r' \<in> set (e # es)" by auto
    with top have "\<not> sorts_before_desc (chain_position r') (chain_position ?res)" by blast
    with that(3) p show ?thesis by simp
  qed
  moreover have "get_previous_log_hash tbl inst = Some (log_hash ?res)"
    using rows by (simp add: get_previous_log_hash_def)
  ultimately show "\<exists>r\<in>set tbl. \<exists>p. institution_id r = Some inst \<and> chain_position r = Some p \<and>
         get_previous_log_hash tbl inst = Some (log_hash r) \<and>
         (\<forall>r'\<in>set tbl. \<forall>p'. institution_id r' = Some inst \<and> chain_position r' = Some p'
            \<longrightarrow> p' \<le> p)"
    using res_tbl res_inst p by blast
next
  assume a: "(\<forall>r\<in>set tbl. institution_id r \<noteq> Some inst) \<and> int (length rqs) \<le> bigint_max"
  then have "chain_ok tbl inst 0" by (simp add: chain_ok_empty)
  moreover from a have "int 0 + int (length rqs) \<le> bigint_max" by simp
  ultimately obtain tbl' where ap: "append_all H tbl inst rqs = Inr tbl'"
    and ok: "chain_ok tbl' inst (0 + length rqs)"
    using append_all_chain by blast
  from ok have pos: "map chain_position (institution_rows tbl' inst) =
      map (\<lambda>n. Some (int n)) [1..<Suc (length rqs)]"
    and link: "\<forall>n<length (institution_rows tbl' inst).
      previous_log_hash (institution_rows tbl' inst ! n) =
        (if n = 0 then None else Some (log_hash (institution_rows tbl' inst ! (n - 1))))"
    by (simp_all add: chain_ok_def Let_def)
  have len: "length (institution_rows tbl' inst) = length rqs"
    using arg_cong [OF pos, of length] by (simp del: upt_Suc)
  from ap len link show "\<exists>tbl'. append_all H tbl inst rqs = Inr tbl' \<and>
         length (institution_rows tbl' inst) = length rqs \<and>
         (\<forall>n<length rqs. previous_log_hash (institution_rows tbl' inst ! n) =
            (if n = 0 then None else Some (log_hash (institution_rows tbl' inst ! (n - 1)))))"
    by auto
qed

lemma previous_log_hash_links_example:
  "get_previous_log_hash [sample_row ''inst-2'' (Some 9) ''h9''] ''inst-1'' = None \<and>
   get_previous_log_hash
     [sample_row ''inst-1'' (Some 2) ''h2'', sample_row ''inst-2'' (Some 9) ''h9'',
      sample_row ''inst-1'' (Some 1) ''h1''] ''inst-1'' = Some ''h2'' \<and>
   (\<exists>tbl'. append_all sample_hasher [sample_row ''inst-2'' (Some 9) ''h9''] ''inst-1''
        [sample_request, sample_request, sample_request] = Inr tbl' \<and>
      map previous_log_hash (institution_rows tbl' ''inst-1'') =
        [None, Some ''H(genesis)'', Some ''H(H(genesis))''])"
proof -
  let ?u = "[sample_row ''inst-2'' (Some 9) ''h9'']"
  let ?t = "[sample_row ''inst-1'' (Some 2) ''h2'', sample_row ''inst-2'' (Some 9) ''h9'',
      sample_row ''inst-1'' (Some 1) ''h1'']"
  let ?rqs = "[sample_request, sample_request, sample_request]"
  have 1: "get_previous_log_hash ?u ''inst-1'' = None"
    using previous_log_hash_links [of ?u "''inst-1''" "[]" sample_hasher]
    by (simp add: sample_row_def)
  have 2: "get_previous_log_hash ?t ''inst-1'' = Some ''h2''"
  proof -
    have hyp: "(\<exists>r\<in>set ?t. institution_id r = Some ''inst-1'') \<and>
      (\<forall>r\<in>set ?t. institution_id r = Some ''inst-1'' \<longrightarrow> chain_position r \<noteq> None)"
      by (simp add: sample_row_def)
    from previous_log_hash_links [of ?t "''inst-1''" "[]" sample_hasher] hyp
    obtain r p where r: "r \<in> set ?t" "institution_id r = Some ''inst-1''"
      "chain_position r = Some p" "get_previous_log_hash ?t ''inst-1'' = Some (log_hash r)"
      and top: "\<forall>r'\<in>set ?t. \<forall>p'. institution_id r' = Some ''inst-1'' \<and>
         chain_position r' = Some p' \<longrightarrow> p' \<le> p"
      by blast
    from top have "2 \<le> p" by (simp add: sample_row_def)
    with r(1,2,3) have "log_hash r = ''h2''" by (auto simp: sample_row_def)
    with r(4) show ?thesis by simp
  qed
  have 3: "\<exists>tbl'. append_all sample_hasher ?u ''inst-1'' ?rqs = Inr tbl' \<and>
      map previous_log_hash (institution_rows tbl' ''inst-1'') =
        [None, Some ''H(genesis)'', Some ''H(H(genesis))'']"
    using previous_log_hash_links [of ?u "''inst-1''" ?rqs sample_hasher]
    by (simp add: sample_row_def sample_request_def sample_hasher_def bigint_max_def
        append_entry_def get_next_chain_position_def get_previous_log_hash_def
        max_chain_position_def institution_rows_def List.map_filter_simps bigint_succ_def
        Let_def)
  from 1 2 3 show ?thesis by blast
qed

text \<open>
  Claim C6. \<^verbatim>\<open>get_previous_log_hash\<close> is to return the log hash of the entry with
  the greatest chain position. The column \<^verbatim>\<open>chain_position\<close> is nullable, and
  \<^verbatim>\<open>ORDER BY chain_position DESC\<close> puts a NULL position first: on the entries with
  positions 1, 2 and NULL the function returns the log hash of the entry without a
  position and not that of entry 2, while \<^verbatim>\<open>MAX(chain_position)\<close> in
  \<^verbatim>\<open>get_next_chain_position\<close> ignores the same entry and answers 2.
\<close>

theorem previous_log_hash_null_position:
  "get_previous_log_hash
     [sample_row ''inst-1'' (Some 1) ''h1'', sample_row ''inst-1'' (Some 2) ''h2'',
      sample_row ''inst-1'' None ''hx''] ''inst-1'' = Some ''hx'' \<and>
   max_chain_position
     [sample_row ''inst-1'' (Some 1) ''h1'', sample_row ''inst-1'' (Some 2) ''h2'',
      sample_row ''inst-1'' None ''hx''] ''inst-1'' = Some 2 \<and>
   log_hash (sample_row ''inst-1'' (Some 2) ''h2'') \<noteq> ''hx''"
  by (simp add: get_previous_log_hash_def max_chain_position_def institution_rows_def
      sample_row_def List.map_filter_simps)

section \<open>Properties of the Merkle commitment\<close>

lemma merkle_level_nonempty: "xs \<noteq> [] \<Longrightarrow> merkle_level H enc xs \<noteq> []"
  by (induction H enc xs rule: merkle_level.induct) auto

lemma merkle_root_total: "xs \<noteq> [] \<Longrightarrow> \<exists>r. merkle_root H enc xs = Some r"
  by (induction H enc xs rule: merkle_root.induct)
     (auto simp: merkle_level_nonempty)

lemma merkle_root_three_pages:
  "merkle_root H enc [a, b, c] = Some (H (enc (H (enc (a @ b)) @ c)))"
  by simp

text \<open>
  Claim C9. For a single page the Merkle root is the page hash itself, with no hashing
  round: for every hash \<open>H\<close> in the place of \<open>fingerprint\<close>, \<open>fingerprintPages\<close>
  of the one page \<open>p\<close> has the page hashes \<open>[H p]\<close> and the root \<open>H p\<close>. The
  root is a function of the page hashes in order.
\<close>

theorem single_page_merkle_root:
  "fingerprintPages H enc [p] = ([H p], Some (H p)) \<and>
   snd (fingerprintPages H enc pages) =
     merkle_root H enc (fst (fingerprintPages H enc pages))"
  by (simp add: fingerprintPages_def Let_def)

section \<open>Properties of the verification state machine\<close>

lemma first_failure_Some:
  "i < length ss \<Longrightarrow> (ss ! i) v p = Some c \<Longrightarrow> \<forall>j<i. (ss ! j) v p = None \<Longrightarrow>
   first_failure ss v p = Some c"
proof (induction ss arbitrary: i)
  case Nil
  then show ?case by simp
next
  case (Cons s ss)
  show ?case
  proof (cases i)
    case 0
    with Cons.prems show ?thesis by simp
  next
    case (Suc k)
    with Cons.prems have "s v p = None" by auto
    moreover have "first_failure ss v p = Some c"
    proof (rule Cons.IH [of k])
      show "k < length ss" using Cons.prems Suc by simp
      show "(ss ! k) v p = Some c" using Cons.prems Suc by simp
      show "\<forall>j<k. (ss ! j) v p = None"
      proof (intro allI impI)
        fix j assume "j < k"
        then have "Suc j < i" using Suc by simp
        with Cons.prems(3) have "((s # ss) ! Suc j) v p = None" by blast
        then show "(ss ! j) v p = None" by simp
      qed
    qed
    ultimately show ?thesis by simp
  qed
qed

lemma first_failure_None:
  "\<forall>i<length ss. (ss ! i) v p = None \<Longrightarrow> first_failure ss v p = None"
proof (induction ss)
  case Nil
  then show ?case by simp
next
  case (Cons s ss)
  from Cons.prems have "((s # ss) ! 0) v p = None" by blast
  then have "s v p = None" by simp
  moreover have "\<forall>i<length ss. (ss ! i) v p = None"
  proof (intro allI impI)
    fix i assume "i < length ss"
    then have "Suc i < length (s # ss)" by simp
    with Cons.prems have "((s # ss) ! Suc i) v p = None" by blast
    then show "(ss ! i) v p = None" by simp
  qed
  ultimately show ?case using Cons.IH by simp
qed

lemma stages_pass_decoded:
  assumes "stage_locate v p = None" and "stage_decode v p = None"
  shows "\<exists>tk. decoded_token v p = Some tk"
  using assms
  by (auto simp: stage_locate_def stage_decode_def decoded_token_def
      split: option.splits decode_result.splits if_splits)

lemma hash_mismatch_first:
  assumes "token p = Some t" and "decode v t = Token tk"
      and "fingerprint v (document p) \<noteq> documentHash (payload tk)"
  shows "verify_pipeline v p = failure HASH_MISMATCH"
  using assms
  by (simp add: verify_pipeline_def pipeline_stages_def stage_locate_def stage_decode_def
      stage_fingerprint_def decoded_token_def)

lemma flip_document_bit_changes:
  assumes "i < 8 * length d"
  shows "flip_document_bit i d \<noteq> d"
proof
  assume eq: "flip_document_bit i d = d"
  have k: "i div 8 < length d" using assms by auto
  have "flip_document_bit i d ! (i div 8) = flip_bit (i mod 8) (d ! (i div 8))"
    using k by (simp add: flip_document_bit_def)
  with eq have "flip_bit (i mod 8) (d ! (i div 8)) = d ! (i div 8)" by simp
  then have "bit (flip_bit (i mod 8) (d ! (i div 8))) (i mod 8) = bit (d ! (i div 8)) (i mod 8)"
    by simp
  then show False
    by (simp add: bit_flip_bit_iff)
qed

text \<open>
  Claim C2. The pipeline is an ordered sequence of checks that terminates at the first
  failing check: the result is then invalid and its \<open>error_code\<close> is the code of that
  check. It succeeds when every check advances. The
  fingerprint comparison comes before the signature check: whenever the token decodes and
  the recomputed fingerprint differs from the signed \<open>documentHash\<close>, the result is
  \<open>HASH_MISMATCH\<close>, whatever the institution, the status and the signature are. In
  particular, flipping any bit of a signed document changes the document and, as the
  fingerprint changes with it (collision resistance of the hash, which the spec assumes),
  verification ends with \<open>HASH_MISMATCH\<close> and not with \<open>SIGNATURE_MISMATCH\<close>.
\<close>

theorem pipeline_first_failure:
  "(\<forall>i c. i < length pipeline_stages \<and> (pipeline_stages ! i) v p = Some c \<and>
           (\<forall>j<i. (pipeline_stages ! j) v p = None)
         \<longrightarrow> verify_pipeline v p = failure c \<and> error_code (verify_pipeline v p) = c \<and>
             \<not> valid (verify_pipeline v p)) \<and>
   ((\<forall>i<length pipeline_stages. (pipeline_stages ! i) v p = None)
         \<longrightarrow> valid (verify_pipeline v p) \<and> error_code (verify_pipeline v p) = SUCCESS) \<and>
   (\<forall>t tk. token p = Some t \<and> decode v t = Token tk \<and>
           fingerprint v (document p) \<noteq> documentHash (payload tk)
         \<longrightarrow> verify_pipeline v p = failure HASH_MISMATCH \<and>
             error_code (verify_pipeline v p) = HASH_MISMATCH \<and>
             \<not> valid (verify_pipeline v p)) \<and>
   (\<forall>t tk i. token p = Some t \<and> decode v t = Token tk \<and>
           documentHash (payload tk) = fingerprint v (document p) \<and>
           i < 8 * length (document p) \<and>
           fingerprint v (flip_document_bit i (document p)) \<noteq> fingerprint v (document p)
         \<longrightarrow> flip_document_bit i (document p) \<noteq> document p \<and>
             error_code (verify_pipeline v (p\<lparr>document := flip_document_bit i (document p)\<rparr>))
               = HASH_MISMATCH \<and>
             error_code (verify_pipeline v (p\<lparr>document := flip_document_bit i (document p)\<rparr>))
               \<noteq> SIGNATURE_MISMATCH)"
proof (intro conjI allI impI)
  fix i c
  assume "i < length pipeline_stages \<and> (pipeline_stages ! i) v p = Some c \<and>
           (\<forall>j<i. (pipeline_stages ! j) v p = None)"
  then have "first_failure pipeline_stages v p = Some c"
    using first_failure_Some by blast
  then show "verify_pipeline v p = failure c" and "error_code (verify_pipeline v p) = c"
    and "\<not> valid (verify_pipeline v p)"
    by (simp_all add: verify_pipeline_def failure_def)
next
  assume a: "\<forall>i<length pipeline_stages. (pipeline_stages ! i) v p = None"
  then have ff: "first_failure pipeline_stages v p = None"
    by (rule first_failure_None)
  have "stage_locate v p = None"
    using a [rule_format, of 0] by (simp add: pipeline_stages_def)
  moreover have "stage_decode v p = None"
    using a [rule_format, of 1] by (simp add: pipeline_stages_def)
  ultimately obtain tk where "decoded_token v p = Some tk"
    using stages_pass_decoded by blast
  with ff show "valid (verify_pipeline v p)" and "error_code (verify_pipeline v p) = SUCCESS"
    by (simp_all add: verify_pipeline_def)
next
  fix t tk
  assume "token p = Some t \<and> decode v t = Token tk \<and>
           fingerprint v (document p) \<noteq> documentHash (payload tk)"
  then have r: "verify_pipeline v p = failure HASH_MISMATCH"
    using hash_mismatch_first by blast
  then show "verify_pipeline v p = failure HASH_MISMATCH"
    and "error_code (verify_pipeline v p) = HASH_MISMATCH"
    and "\<not> valid (verify_pipeline v p)"
    by (simp_all add: failure_def)
next
  fix t tk i
  assume a: "token p = Some t \<and> decode v t = Token tk \<and>
           documentHash (payload tk) = fingerprint v (document p) \<and>
           i < 8 * length (document p) \<and>
           fingerprint v (flip_document_bit i (document p)) \<noteq> fingerprint v (document p)"
  let ?p = "p\<lparr>document := flip_document_bit i (document p)\<rparr>"
  from a show "flip_document_bit i (document p) \<noteq> document p"
    using flip_document_bit_changes by blast
  from a have "token ?p = Some t" "decode v t = Token tk"
    "fingerprint v (document ?p) \<noteq> documentHash (payload tk)"
    by simp_all
  then have r: "verify_pipeline v ?p = failure HASH_MISMATCH"
    by (rule hash_mismatch_first)
  then show "error_code (verify_pipeline v ?p) = HASH_MISMATCH"
    and "error_code (verify_pipeline v ?p) \<noteq> SIGNATURE_MISMATCH"
    by (simp_all add: failure_def)
qed

lemma sample_flip: "flip_document_bit 0 sample_document = [0, 2]"
  by (simp add: flip_document_bit_def sample_document_def flip_bit_0)

theorem pipeline_first_failure_witness:
  "error_code (verify_pipeline (sample_verifier Revoked) (present ''forged'' sample_document))
     = DOCUMENT_REVOKED \<and>
   \<not> valid (verify_pipeline (sample_verifier Revoked) (present ''forged'' sample_document)) \<and>
   error_code (verify_pipeline (sample_verifier Active) (present ''known'' sample_document))
     = SUCCESS \<and>
   error_code (verify_pipeline (sample_verifier Active) (present ''forged'' [0, 2]))
     = HASH_MISMATCH \<and>
   error_code (verify_pipeline (sample_verifier Active)
      (present ''known'' (flip_document_bit 0 sample_document))) = HASH_MISMATCH"
proof -
  let ?v = "sample_verifier Active"
  have tokens: "token (present ''known'' sample_document) = Some ''known''"
    "token (present ''forged'' [0, 2]) = Some ''forged''"
    by (simp_all add: present_def)
  have dec: "decode ?v ''known'' = Token (sample_token ''inst-1'' ''signed-by-pk1'')"
    "decode ?v ''forged'' = Token (sample_token ''inst-1'' ''invalid_signature'')"
    by (simp_all add: sample_verifier_def)
  have 1: "error_code (verify_pipeline (sample_verifier Revoked)
        (present ''forged'' sample_document)) = DOCUMENT_REVOKED \<and>
      \<not> valid (verify_pipeline (sample_verifier Revoked) (present ''forged'' sample_document))"
  proof -
    let ?w = "sample_verifier Revoked" and ?q = "present ''forged'' sample_document"
    have "4 < length pipeline_stages \<and> (pipeline_stages ! 4) ?w ?q = Some DOCUMENT_REVOKED \<and>
           (\<forall>j<4. (pipeline_stages ! j) ?w ?q = None)"
      by (simp add: pipeline_stages_def stage_locate_def stage_decode_def stage_fingerprint_def
          stage_institution_def stage_status_def decoded_token_def sample_verifier_def
          present_def sample_token_def sample_fingerprint_def All_less_Suc numeral_eq_Suc
          nth_Cons')
    with pipeline_first_failure [of ?w ?q] show ?thesis by blast
  qed
  have 2: "error_code (verify_pipeline ?v (present ''known'' sample_document)) = SUCCESS"
  proof -
    let ?q = "present ''known'' sample_document"
    have "\<forall>i<length pipeline_stages. (pipeline_stages ! i) ?v ?q = None"
      by (simp add: pipeline_stages_def stage_locate_def stage_decode_def stage_fingerprint_def
          stage_institution_def stage_status_def stage_signature_def decoded_token_def
          verifying_epoch_def resolved_keys_def expired_def sample_verifier_def
          present_def sample_token_def sample_fingerprint_def All_less_Suc numeral_eq_Suc
          nth_Cons')
    with pipeline_first_failure [of ?v ?q] show ?thesis by blast
  qed
  have 3: "error_code (verify_pipeline ?v (present ''forged'' [0, 2])) = HASH_MISMATCH"
  proof -
    have "fingerprint ?v (document (present ''forged'' [0, 2]))
        \<noteq> documentHash (payload (sample_token ''inst-1'' ''invalid_signature''))"
      by (simp add: sample_verifier_def present_def sample_token_def sample_fingerprint_def
          sample_document_def)
    with pipeline_first_failure [of ?v "present ''forged'' [0, 2]"] tokens dec
    show ?thesis by blast
  qed
  have 4: "error_code (verify_pipeline ?v
      (present ''known'' (flip_document_bit 0 sample_document))) = HASH_MISMATCH"
  proof -
    let ?q = "present ''known'' sample_document"
    have "token ?q = Some ''known'' \<and>
       decode ?v ''known'' = Token (sample_token ''inst-1'' ''signed-by-pk1'') \<and>
       documentHash (payload (sample_token ''inst-1'' ''signed-by-pk1''))
         = fingerprint ?v (document ?q) \<and>
       0 < 8 * length (document ?q) \<and>
       fingerprint ?v (flip_document_bit 0 (document ?q)) \<noteq> fingerprint ?v (document ?q)"
      by (simp add: sample_verifier_def present_def sample_token_def sample_fingerprint_def
          sample_flip)
         (simp add: sample_document_def)
    with pipeline_first_failure [of ?v ?q]
    have "error_code (verify_pipeline ?v (?q\<lparr>document := flip_document_bit 0 (document ?q)\<rparr>))
               = HASH_MISMATCH"
      by blast
    then show ?thesis by (simp add: present_def)
  qed
  from 1 2 3 4 show ?thesis by blast
qed

end
